theory Spec2Isabelle
  imports Complex_Main "HOL-Library.Char_ord" "HOL-Library.List_Lexorder"
    "HOL-Library.Product_Lexorder"
begin

section \<open>Data model\<close>

text \<open>
  The program is \<^verbatim>\<open>src/core/data_processor.py\<close>: the static methods of the class
  \<^verbatim>\<open>DataProcessor\<close>, which transform pandas data frames.

  A cell of a data frame is a missing value (\<^verbatim>\<open>NaN\<close>, \<^verbatim>\<open>None\<close>,
  \<^verbatim>\<open>NaT\<close>: whatever \<^verbatim>\<open>pd.isna\<close> accepts), a string, a number or a date. Numbers are
  rationals: the program adds, subtracts and divides by 8, and no claim below depends on
  rounding. A date is a year, a month and a day; the program reads its year only.

  A Python string is the list of its code points. The type \<open>char\<close> has the code points
  below 256, which covers every literal of the source; the accented letters of the
  literals are written \<open>CHR 0xE9\<close> and so on. The order on strings is the lexicographic
  order on code points, as Python's.
\<close>

datatype cell = Null | Str string | Num rat | Timestamp int nat nat

datatype py_error = KeyError | TypeError

text \<open>
  A data frame whose schema the program inspects (\<^verbatim>\<open>'x' in df.columns\<close>) is the list of
  its column names, its index and the list of its rows; a row gives the cell of every
  column. Reading a column that is not in the schema raises \<^verbatim>\<open>KeyError\<close>. The index is
  the list of the labels of the rows, in the order of the rows: a table has as many labels
  as rows. A label is a value like a cell (a number for the default index), and pandas
  lets a label occur more than once. A mask of booleans selects rows by position; a list
  of labels (\<^verbatim>\<open>df.loc[labels, ...]\<close>) selects every row whose label is in the list.
\<close>

type_synonym row = "string \<Rightarrow> cell"

type_synonym label = cell

record dataframe =
  columns :: "string list"
  index :: "label list"
  rows :: "row list"

definition isna :: "cell \<Rightarrow> bool" where
  "isna c = (c = Null)"

definition getitem :: "dataframe \<Rightarrow> row \<Rightarrow> string \<Rightarrow> py_error + cell" where
  \<comment> \<open>\<^verbatim>\<open>row[c]\<close>\<close>
  "getitem df r c = (if c \<in> set (columns df) then Inr (r c) else Inl KeyError)"

definition row_get :: "dataframe \<Rightarrow> row \<Rightarrow> string \<Rightarrow> cell \<Rightarrow> cell" where
  \<comment> \<open>\<^verbatim>\<open>row.get(c, default)\<close>\<close>
  "row_get df r c dflt = (if c \<in> set (columns df) then r c else dflt)"

section \<open>Lookup builder: \<^verbatim>\<open>create_connection_dict\<close>\<close>

text \<open>
  The loop of lines 42 to 45 over the rows, in the order of the table. The name is read first
  (line 43), whatever the value of the target column is. The dictionary is a map from
  the name cell to the value cell; an assignment to a key that is already there replaces
  its value.
\<close>

fun connection_loop ::
  "dataframe \<Rightarrow> string \<Rightarrow> row list \<Rightarrow> (cell \<rightharpoonup> cell) \<Rightarrow> py_error + (cell \<rightharpoonup> cell)" where
  "connection_loop df column_name [] result_dict = Inr result_dict"
| "connection_loop df column_name (r # rest) result_dict =
     (case getitem df r ''Nom'' of
        Inl e \<Rightarrow> Inl e
      | Inr project_name \<Rightarrow>
          if \<not> isna (row_get df r column_name Null)
          then (case getitem df r column_name of
                  Inl e \<Rightarrow> Inl e
                | Inr v \<Rightarrow> connection_loop df column_name rest (result_dict(project_name \<mapsto> v)))
          else connection_loop df column_name rest result_dict)"

definition create_connection_dict :: "dataframe \<Rightarrow> string \<Rightarrow> py_error + (cell \<rightharpoonup> cell)" where
  "create_connection_dict deployments_df column_name =
     (if column_name \<in> set (columns deployments_df)
      then connection_loop deployments_df column_name (rows deployments_df) Map.empty
      else Inr Map.empty)"

text \<open>
  The non-null values of the target column on the rows of one name, in row order.
\<close>

definition non_null_values :: "dataframe \<Rightarrow> string \<Rightarrow> cell \<Rightarrow> cell list" where
  "non_null_values df column_name name =
     map (\<lambda>r. r column_name)
       (filter (\<lambda>r. r ''Nom'' = name \<and> \<not> isna (r column_name)) (rows df))"

section \<open>Theoretical charge resolver\<close>

definition connection_mapping :: "(string \<times> string) list" where
  "connection_mapping =
     [(''Connexion Recette int'', ''Connexion EDI''),
      (''Connexion Pr'' @ [CHR 0xE9] @ ''-produ'', ''Connexion EDI''),
      (''Connexion D'' @ [CHR 0xE9] @ ''veloppe'', ''Connexion EDI''),
      (''Connexion Recette'', ''Connexion EDI''),
      (''Connexion Production'', ''Connexion EDI'')]"

definition phase_mapping :: "(string \<times> string) list" where
  "phase_mapping =
     [(''Connexion Recette int'', ''Recette interne''),
      (''Connexion Pr'' @ [CHR 0xE9] @ ''-produ'', ''Pr'' @ [CHR 0xE9] @ ''-production''),
      (''Connexion D'' @ [CHR 0xE9] @ ''veloppe'', ''D'' @ [CHR 0xE9] @ ''veloppement''),
      (''Connexion Recette'', ''Recette utilisateur''),
      (''Connexion Production'', ''En production (VSR)'')]"

text \<open>
  \<^verbatim>\<open>mapping.get(x, x)\<close> on a dictionary literal. The argument of the two normalisers is
  a string or \<^verbatim>\<open>None\<close>; \<^verbatim>\<open>not x\<close> holds of \<^verbatim>\<open>None\<close> and of the empty string.
\<close>

definition mapping_get :: "(string \<times> string) list \<Rightarrow> string \<Rightarrow> string" where
  "mapping_get mapping x = (case map_of mapping x of None \<Rightarrow> x | Some v \<Rightarrow> v)"

definition normalize_connection_level :: "string option \<Rightarrow> string option" where
  "normalize_connection_level connection_level =
     (case connection_level of
        None \<Rightarrow> None
      | Some s \<Rightarrow> if s = [] then None else Some (mapping_get connection_mapping s))"

definition normalize_project_phase :: "string option \<Rightarrow> string option" where
  "normalize_project_phase project_phase =
     (case project_phase of
        None \<Rightarrow> None
      | Some s \<Rightarrow> if s = [] then None else Some (mapping_get phase_mapping s))"

text \<open>
  \<^verbatim>\<open>get_theoretical_charge\<close> is imported from \<^verbatim>\<open>config.rules\<close>, which is not among the
  sources: it is the parameter \<open>rules\<close>, from the two normalised labels to the charge, or
  to \<open>None\<close> where the rule table has no entry.
\<close>

type_synonym rule_table = "string option \<Rightarrow> string option \<Rightarrow> rat option"

definition calculate_theoretical_charge ::
  "rule_table \<Rightarrow> string option \<Rightarrow> string option \<Rightarrow> rat option" where
  "calculate_theoretical_charge rules connection_level project_phase =
     (let normalized_connection = normalize_connection_level connection_level;
          normalized_phase = normalize_project_phase project_phase
      in rules normalized_connection normalized_phase)"

section \<open>Year summary builder: \<^verbatim>\<open>create_projects_by_month_summary\<close>\<close>

text \<open>
  The column names with a letter outside ASCII or an apostrophe, character by character:
  \<^verbatim>\<open>Date d'affectation\<close>, \<^verbatim>\<open>Date de creation\<close>, \<^verbatim>\<open>Derniere Note\<close> and \<^verbatim>\<open>Annee\<close> with
  their accents (\<open>CHR 0xE9\<close> is e acute, \<open>CHR 0xE8\<close> e grave, \<open>CHR 0x27\<close> the apostrophe).
\<close>

abbreviation Date_d_affectation :: string where
  "Date_d_affectation \<equiv>
     [CHR ''D'', CHR ''a'', CHR ''t'', CHR ''e'', CHR '' '', CHR ''d'', CHR 0x27, CHR ''a'',
      CHR ''f'', CHR ''f'', CHR ''e'', CHR ''c'', CHR ''t'', CHR ''a'', CHR ''t'',
      CHR ''i'', CHR ''o'', CHR ''n'']"

abbreviation Date_de_creation :: string where
  "Date_de_creation \<equiv>
     [CHR ''D'', CHR ''a'', CHR ''t'', CHR ''e'', CHR '' '', CHR ''d'', CHR ''e'',
      CHR '' '', CHR ''c'', CHR ''r'', CHR 0xE9, CHR ''a'', CHR ''t'', CHR ''i'',
      CHR ''o'', CHR ''n'']"

abbreviation Derniere_Note :: string where
  "Derniere_Note \<equiv>
     [CHR ''D'', CHR ''e'', CHR ''r'', CHR ''n'', CHR ''i'', CHR 0xE8, CHR ''r'', CHR ''e'',
      CHR '' '', CHR ''N'', CHR ''o'', CHR ''t'', CHR ''e'']"

abbreviation Annee :: string where
  "Annee \<equiv>
     [CHR ''A'', CHR ''n'', CHR ''n'', CHR 0xE9, CHR ''e'']"

definition default_phases :: "string list" where
  "default_phases =
     [''Cadrage / Sp'' @ [CHR 0xE9] @ ''cifications'',
      ''Recette interne'',
      ''D'' @ [CHR 0xE9] @ ''veloppement'',
      ''Recette utilisateur'',
      ''Non d'' @ [CHR 0xE9] @ ''marr'' @ [CHR 0xE9] @ '' (nouveau projet)'',
      ''Pr'' @ [CHR 0xE9] @ ''-production'']"

definition empty_summary :: dataframe where
  \<comment> \<open>\<^verbatim>\<open>pd.DataFrame(columns=[...])\<close> of lines 148, 186 and 193\<close>
  "empty_summary =
     \<lparr>columns = [Annee, ''Nombre de projets'', ''Nom du projet'', Derniere_Note],
      index = [], rows = []\<rparr>"

text \<open>
  The operations of pandas the function uses. Each returns a new table: copying and
  mutation are the subject of the section on stores below.
\<close>

definition select_columns :: "dataframe \<Rightarrow> string list \<Rightarrow> py_error + dataframe" where
  \<comment> \<open>\<^verbatim>\<open>df[[c1, c2, ...]]\<close>: \<^verbatim>\<open>KeyError\<close> when a name is not a column\<close>
  "select_columns df cs =
     (if list_all (\<lambda>c. c \<in> set (columns df)) cs
      then Inr \<lparr>columns = cs, index = index df, rows = rows df\<rparr>
      else Inl KeyError)"

definition filter_rows :: "(row \<Rightarrow> bool) \<Rightarrow> dataframe \<Rightarrow> dataframe" where
  \<comment> \<open>\<^verbatim>\<open>df[mask]\<close>: the rows that are kept, each with its label\<close>
  "filter_rows keep df =
     \<lparr>columns = columns df,
      index = map fst (filter (\<lambda>labelled. keep (snd labelled)) (zip (index df) (rows df))),
      rows = filter keep (rows df)\<rparr>"

definition set_column :: "dataframe \<Rightarrow> string \<Rightarrow> (row \<Rightarrow> cell) \<Rightarrow> dataframe" where
  \<comment> \<open>\<^verbatim>\<open>df[c] = values\<close>, the value of each row computed from the row; a new column comes last\<close>
  "set_column df c v =
     \<lparr>columns = (if c \<in> set (columns df) then columns df else columns df @ [c]),
      index = index df,
      rows = map (\<lambda>r. r(c := v r)) (rows df)\<rparr>"

definition isin :: "cell \<Rightarrow> string list \<Rightarrow> bool" where
  \<comment> \<open>\<^verbatim>\<open>.isin(values)\<close> for a list of strings\<close>
  "isin c values = (case c of Str s \<Rightarrow> s \<in> set values | _ \<Rightarrow> False)"

text \<open>
  \<^verbatim>\<open>pd.to_datetime(column, errors='coerce')\<close> is library code: its parser is the parameter
  \<open>parse\<close>, which gives the date of a cell of a column (pandas may read the format off the
  whole column), or \<open>None\<close> for what it coerces to \<^verbatim>\<open>NaT\<close>.
\<close>

type_synonym date_parser = "cell list \<Rightarrow> cell \<Rightarrow> (int \<times> nat \<times> nat) option"

definition to_datetime :: "date_parser \<Rightarrow> cell list \<Rightarrow> cell \<Rightarrow> cell" where
  "to_datetime parse column c =
     (case parse column c of None \<Rightarrow> Null | Some (y, m, d) \<Rightarrow> Timestamp y m d)"

fun dt_year :: "cell \<Rightarrow> cell" where
  \<comment> \<open>\<^verbatim>\<open>.dt.year\<close>\<close>
  "dt_year (Timestamp y m d) = Num (of_int y)"
| "dt_year c = Null"

text \<open>
  The sort key of a cell for \<^verbatim>\<open>sort_values\<close>: numbers by value, strings by code points,
  missing values last (pandas' \<^verbatim>\<open>na_position='last'\<close>). The year column holds numbers and
  a column of names holds strings and missing values; how the kinds are placed against
  each other is a choice of this model, and no theorem below rests on it. The sort is
  stable (pandas sorts on several columns with a stable lexsort; \<open>sort_key\<close> is the
  insertion sort).
\<close>

fun cell_key :: "cell \<Rightarrow> nat \<times> rat \<times> string" where
  "cell_key (Num x) = (0, x, [])"
| "cell_key (Timestamp y m d) = (1, of_int (y * 10000 + int m * 100 + int d), [])"
| "cell_key (Str s) = (2, 0, s)"
| "cell_key Null = (3, 0, [])"

definition unique :: "'a list \<Rightarrow> 'a list" where
  \<comment> \<open>\<^verbatim>\<open>Series.unique()\<close>: the values in the order of their first appearance\<close>
  "unique xs = rev (remdups (rev xs))"

definition allowed_phases_of :: "string list option \<Rightarrow> string list" where
  \<comment> \<open>lines 151 to 161\<close>
  "allowed_phases_of phases_checked =
     (case phases_checked of
        None \<Rightarrow> default_phases
      | Some ps \<Rightarrow> if length ps = 0 then default_phases else ps)"

definition columns_needed :: "dataframe \<Rightarrow> string list" where
  \<comment> \<open>lines 164 to 168\<close>
  "columns_needed deployments_df =
     [''Nom'', Date_d_affectation, ''Phase du projet'']
     @ (if Date_de_creation \<in> set (columns deployments_df) then [Date_de_creation] else [])
     @ (if Derniere_Note \<in> set (columns deployments_df) then [Derniere_Note] else [])"

definition effective_dates :: "dataframe \<Rightarrow> dataframe" where
  \<comment> \<open>lines 174 to 183\<close>
  "effective_dates df_copy =
     (let df1 = set_column df_copy ''Date effective'' (\<lambda>r. r Date_d_affectation);
          df2 = (if Date_de_creation \<in> set (columns df1)
                 then set_column df1 ''Date effective''
                        (\<lambda>r. if isna (r Date_d_affectation) \<and> \<not> isna (r Date_de_creation)
                              then r Date_de_creation else r ''Date effective'')
                 else df1)
      in filter_rows (\<lambda>r. \<not> isna (r ''Date effective'')) df2)"

definition parse_dates :: "date_parser \<Rightarrow> dataframe \<Rightarrow> dataframe" where
  \<comment> \<open>lines 189 and 190\<close>
  "parse_dates parse df_copy =
     (let column = map (\<lambda>r. r ''Date effective'') (rows df_copy);
          df1 = set_column df_copy ''Date effective''
                  (\<lambda>r. to_datetime parse column (r ''Date effective''))
      in filter_rows (\<lambda>r. \<not> isna (r ''Date effective'')) df1)"

definition rename_result :: "dataframe \<Rightarrow> dataframe" where
  \<comment> \<open>line 200: the three columns of line 199 get their new names, in order\<close>
  "rename_result result_df =
     \<lparr>columns = [Annee, ''Nom du projet'', Derniere_Note],
      index = index result_df,
      rows = map (\<lambda>r. (\<lambda>_. Null)(Annee := r Annee, ''Nom du projet'' := r ''Nom'',
                                  Derniere_Note := r Derniere_Note)) (rows result_df)\<rparr>"

definition sort_by_year_name :: "dataframe \<Rightarrow> dataframe" where
  \<comment> \<open>line 203: the rows in their new order, each with its label\<close>
  "sort_by_year_name result_df =
     \<lparr>columns = columns result_df,
      index = map fst
        (sort_key (\<lambda>labelled. (cell_key (snd labelled Annee),
                                cell_key (snd labelled ''Nom du projet'')))
           (zip (index result_df) (rows result_df))),
      rows = sort_key (\<lambda>r. (cell_key (r Annee), cell_key (r ''Nom du projet''))) (rows result_df)\<rparr>"

text \<open>
  Lines 150 to 203: the table \<^verbatim>\<open>result_df\<close> of the projects that pass the phase filter
  and have an effective date that parses, with their year, sorted by year and name. The
  value is \<open>None\<close> where the source returns the empty result (lines 186 and 193).
\<close>

definition sorted_projects ::
  "date_parser \<Rightarrow> dataframe \<Rightarrow> string list option \<Rightarrow> py_error + dataframe option" where
  "sorted_projects parse deployments_df phases_checked =
     (let allowed_phases = allowed_phases_of phases_checked in
      case select_columns deployments_df (columns_needed deployments_df) of
        Inl e \<Rightarrow> Inl e
      | Inr df_copy \<Rightarrow>
          let df1 = filter_rows (\<lambda>r. isin (r ''Phase du projet'') allowed_phases) df_copy;
              df2 = effective_dates df1
          in if rows df2 = [] then Inr None
             else let df3 = parse_dates parse df2
                  in if rows df3 = [] then Inr None
                     else let df4 = set_column df3 Annee (\<lambda>r. dt_year (r ''Date effective''))
                          in case select_columns df4 [Annee, ''Nom'', Derniere_Note] of
                               Inl e \<Rightarrow> Inl e
                             | Inr result_df \<Rightarrow>
                                 Inr (Some (sort_by_year_name (rename_result result_df))))"

definition add_counts :: "dataframe \<Rightarrow> dataframe" where
  \<comment> \<open>line 206: \<^verbatim>\<open>groupby(year)[year].transform('count')\<close>\<close>
  "add_counts result_df =
     set_column result_df ''Nombre de projets''
       (\<lambda>r. Num (of_nat (length (filter (\<lambda>r'. r' Annee = r Annee) (rows result_df)))))"

definition clear_2024_2025 :: "dataframe \<Rightarrow> dataframe" where
  \<comment> \<open>lines 209 to 211\<close>
  "clear_2024_2025 result_df =
     \<lparr>columns = columns result_df,
      index = index result_df,
      rows = map (\<lambda>r. if r Annee \<in> set [Num 2024, Num 2025]
                       then r(''Nom du projet'' := Str [], Derniere_Note := Str [])
                       else r) (rows result_df)\<rparr>"

text \<open>
  The loop of lines 214 to 220 writes the empty string into the columns of the year and
  of the count, which hold numbers until then; pandas (before version 3) turns such a
  column into a column of objects. The years of line 214 are read before the loop, and an
  empty string is no year for the comparison of line 215. Line 216 takes the labels of the
  rows of the year, and lines 219 and 220 write into every row whose label is among these
  labels but the first (\<^verbatim>\<open>.loc\<close> with a list of labels), whatever the year of that row is.
\<close>

definition clear_cells :: "row \<Rightarrow> row" where
  \<comment> \<open>lines 219 and 220, on one row\<close>
  "clear_cells r = r(Annee := Str [], ''Nombre de projets'' := Str [])"

definition clear_year :: "label list \<Rightarrow> cell \<Rightarrow> row list \<Rightarrow> row list" where
  \<comment> \<open>lines 215 to 220, one turn of the loop, on the rows of the table with the labels \<open>labels\<close>\<close>
  "clear_year labels year rs =
     (let year_indices =
            map (\<lambda>i. labels ! i) (filter (\<lambda>i. (rs ! i) Annee = year) [0..<length rs])
      in if length year_indices > 1
         then map (\<lambda>i. if labels ! i \<in> set (tl year_indices)
                        then clear_cells (rs ! i)
                        else rs ! i) [0..<length rs]
         else rs)"

definition clear_repeated_years :: "dataframe \<Rightarrow> dataframe" where
  \<comment> \<open>lines 214 to 220\<close>
  "clear_repeated_years result_df =
     \<lparr>columns = columns result_df,
      index = index result_df,
      rows = fold (clear_year (index result_df))
               (unique (map (\<lambda>r. r Annee) (rows result_df))) (rows result_df)\<rparr>"

definition reorder_columns :: "dataframe \<Rightarrow> dataframe" where
  \<comment> \<open>line 223\<close>
  "reorder_columns result_df =
     \<lparr>columns = [Annee, ''Nombre de projets'', ''Nom du projet'', Derniere_Note],
      index = index result_df,
      rows = rows result_df\<rparr>"

definition finish_summary :: "dataframe \<Rightarrow> dataframe" where
  \<comment> \<open>lines 205 to 223\<close>
  "finish_summary result_df =
     reorder_columns (clear_repeated_years (clear_2024_2025 (add_counts result_df)))"

definition create_projects_by_month_summary ::
  "date_parser \<Rightarrow> dataframe \<Rightarrow> string list option \<Rightarrow> py_error + dataframe" where
  "create_projects_by_month_summary parse deployments_df phases_checked =
     (if Date_d_affectation \<notin> set (columns deployments_df) then Inr empty_summary
      else case sorted_projects parse deployments_df phases_checked of
             Inl e \<Rightarrow> Inl e
           | Inr None \<Rightarrow> Inr empty_summary
           | Inr (Some result_df) \<Rightarrow> Inr (finish_summary result_df))"

text \<open>
  Lines 206 and 209 to 211 on one row: the row with its count, and the row with its name
  and note cleared when its year is 2024 or 2025.
\<close>

definition counted :: "dataframe \<Rightarrow> row \<Rightarrow> row" where
  "counted t r = r(''Nombre de projets'' :=
      Num (of_nat (length (filter (\<lambda>r'. r' Annee = r Annee) (rows t)))))"

definition cleared :: "row \<Rightarrow> row" where
  "cleared r = (if r Annee = Num 2024 \<or> r Annee = Num 2025
      then r(''Nom du projet'' := Str [], Derniere_Note := Str []) else r)"

section \<open>Hierarchical summary builder: \<^verbatim>\<open>format_resource_summary\<close>\<close>

text \<open>
  The pivot table and the resource summary have a fixed schema, which the program reads
  and writes by name and never inspects: a row is a record of its cells. The names of a
  resource and of a project are strings, a charge is a number or missing (\<^verbatim>\<open>NaN\<close>),
  the amount, the note and the duration are cells that the program copies. A column of
  the summary that a row never received is missing (\<^verbatim>\<open>NaN\<close>) in that row.
\<close>

record pivot_row =
  Ressource :: string
  Projet :: string
  Charge_JH :: "rat option"
  Montant :: cell
  Note :: cell
  Duree :: cell

record summary_row =
  Resource_PROJET :: "string option"
  Charge_JH_cell :: "rat option"
  Somme_de_Charge_JH :: "rat option"
  Niveau_de_connexion :: "string option"
  Phase_du_projet :: "string option"
  Charge_Theorique :: "rat option"
  Ecart :: "rat option"
  Montant_cell :: cell
  Note_cell :: cell
  Duree_cell :: cell

type_synonym lookup = "string \<rightharpoonup> string"

definition dict_get :: "lookup \<Rightarrow> string \<Rightarrow> string \<Rightarrow> string" where
  \<comment> \<open>\<^verbatim>\<open>d.get(key, default)\<close>\<close>
  "dict_get d k dflt = (case d k of None \<Rightarrow> dflt | Some v \<Rightarrow> v)"

definition sort_values :: "pivot_row list \<Rightarrow> pivot_row list" where
  \<comment> \<open>line 310: \<^verbatim>\<open>sort_values(['Ressource', 'Projet'])\<close>, a stable sort\<close>
  "sort_values pivot_df = sort_key (\<lambda>row. (Ressource row, Projet row)) pivot_df"

definition resolve_charge :: "rule_table \<Rightarrow> lookup \<Rightarrow> lookup \<Rightarrow> string \<Rightarrow> rat option" where
  \<comment> \<open>lines 321 to 327, and again lines 360 to 366; a string is true when it is not empty\<close>
  "resolve_charge rules connection_dict phase_dict project =
     (let connection_level = dict_get connection_dict project [];
          project_phase = dict_get phase_dict project []
      in if connection_level \<noteq> [] \<and> project_phase \<noteq> []
         then calculate_theoretical_charge rules (Some connection_level) (Some project_phase)
         else None)"

definition minus_charge :: "rat \<Rightarrow> rat option \<Rightarrow> rat option" where
  \<comment> \<open>\<^verbatim>\<open>theoretical_charge - charge\<close>: missing when the charge is\<close>
  "minus_charge theoretical_charge charge =
     (case charge of None \<Rightarrow> None | Some c \<Rightarrow> Some (theoretical_charge - c))"

text \<open>
  The first pass (lines 315 to 334) collects the differences of each resource in a
  dictionary. The second pass sums them (line 353) and drops the sum: the dictionary has
  no part in the result.
\<close>

fun first_pass ::
  "rule_table \<Rightarrow> lookup \<Rightarrow> lookup \<Rightarrow> pivot_row list \<Rightarrow> (string \<rightharpoonup> rat option list)
    \<Rightarrow> (string \<rightharpoonup> rat option list)" where
  "first_pass rules connection_dict phase_dict [] resource_ecarts = resource_ecarts"
| "first_pass rules connection_dict phase_dict (row # rest) resource_ecarts =
     (let resource = Ressource row; project = Projet row; charge = Charge_JH row
      in case resolve_charge rules connection_dict phase_dict project of
           None \<Rightarrow> first_pass rules connection_dict phase_dict rest resource_ecarts
         | Some theoretical_charge \<Rightarrow>
             let ecart = minus_charge theoretical_charge charge;
                 ecarts = (case resource_ecarts resource of None \<Rightarrow> [] | Some es \<Rightarrow> es)
             in first_pass rules connection_dict phase_dict rest
                  (resource_ecarts(resource \<mapsto> ecarts @ [ecart])))"

definition empty_row :: summary_row where
  \<comment> \<open>a new row of \<^verbatim>\<open>result_df\<close>, before its cells are assigned\<close>
  "empty_row =
     \<lparr>Resource_PROJET = None, Charge_JH_cell = None, Somme_de_Charge_JH = None,
      Niveau_de_connexion = None, Phase_du_projet = None, Charge_Theorique = None,
      Ecart = None, Montant_cell = Null, Note_cell = Null, Duree_cell = Null\<rparr>"

definition resource_charge :: "pivot_row list \<Rightarrow> string \<Rightarrow> rat" where
  \<comment> \<open>line 348; the sum of a column skips the missing values\<close>
  "resource_charge pivot_df resource =
     sum_list (map the (filter (\<lambda>c. c \<noteq> None)
       (map Charge_JH (filter (\<lambda>row. Ressource row = resource) pivot_df))))"

definition resource_row :: "pivot_row list \<Rightarrow> string \<Rightarrow> summary_row" where
  \<comment> \<open>lines 347 to 349\<close>
  "resource_row pivot_df resource =
     empty_row\<lparr>Resource_PROJET := Some resource,
               Somme_de_Charge_JH := Some (resource_charge pivot_df resource)\<rparr>"

definition project_row :: "rule_table \<Rightarrow> lookup \<Rightarrow> lookup \<Rightarrow> pivot_row \<Rightarrow> summary_row" where
  \<comment> \<open>lines 338 to 343 and 360 to 381\<close>
  "project_row rules connection_dict phase_dict row =
     (let project = Projet row; charge = Charge_JH row;
          connection_level = dict_get connection_dict project [];
          project_phase = dict_get phase_dict project [];
          theoretical_charge = resolve_charge rules connection_dict phase_dict project;
          r = empty_row\<lparr>Resource_PROJET := Some (''    '' @ project),
                        Charge_JH_cell := charge,
                        Niveau_de_connexion := Some connection_level,
                        Phase_du_projet := Some project_phase,
                        Montant_cell := Montant row, Note_cell := Note row,
                        Duree_cell := Duree row\<rparr>
      in case theoretical_charge of
           None \<Rightarrow> r
         | Some t \<Rightarrow> r\<lparr>Charge_Theorique := Some t, Ecart := minus_charge t charge\<rparr>)"

text \<open>
  The second pass (lines 337 to 383). \<^verbatim>\<open>current_resource\<close> is \<^verbatim>\<open>None\<close> before the first
  row; the rows of the result are appended in order (\<^verbatim>\<open>row_index\<close> counts them).
\<close>

fun second_pass ::
  "rule_table \<Rightarrow> lookup \<Rightarrow> lookup \<Rightarrow> pivot_row list \<Rightarrow> string option \<Rightarrow> pivot_row list
    \<Rightarrow> summary_row list" where
  "second_pass rules connection_dict phase_dict pivot_df current_resource [] = []"
| "second_pass rules connection_dict phase_dict pivot_df current_resource (row # rest) =
     (let resource = Ressource row
      in if Some resource \<noteq> current_resource
         then resource_row pivot_df resource
              # project_row rules connection_dict phase_dict row
              # second_pass rules connection_dict phase_dict pivot_df (Some resource) rest
         else project_row rules connection_dict phase_dict row
              # second_pass rules connection_dict phase_dict pivot_df current_resource rest)"

definition format_resource_summary ::
  "rule_table \<Rightarrow> pivot_row list \<Rightarrow> lookup \<Rightarrow> lookup \<Rightarrow> (string \<rightharpoonup> cell) \<Rightarrow> summary_row list" where
  "format_resource_summary rules pivot_df connection_dict phase_dict montant_dict =
     (let pivot_df = sort_values pivot_df;
          resource_ecarts = first_pass rules connection_dict phase_dict pivot_df Map.empty
      in second_pass rules connection_dict phase_dict pivot_df None pivot_df)"

section \<open>Reverse aggregator: \<^verbatim>\<open>create_theoretical_charge_by_resource_from_summary\<close>\<close>

text \<open>
  \<^verbatim>\<open>str.strip()\<close> removes the white space at both ends. The white-space characters among
  the code points below 256 are the tab, the line feed, the vertical tab, the form feed,
  the carriage return, the four separators 28 to 31, the space, the next line (133) and
  the no-break space (160).
\<close>

definition is_space :: "char \<Rightarrow> bool" where
  "is_space c = (of_char c \<in> set [9, 10, 11, 12, 13, 28, 29, 30, 31, 32, 133, 160 :: nat])"

definition py_strip :: "string \<Rightarrow> string" where
  "py_strip s = rev (dropWhile is_space (rev (dropWhile is_space s)))"

definition indented :: "string \<Rightarrow> bool" where
  \<comment> \<open>\<^verbatim>\<open>s.startswith('    ')\<close>\<close>
  "indented s = (take 4 s = ''    '')"

record resource_total =
  Ressource_cell :: string
  Somme_Charge_Theorique :: rat
  Nombre_de_projets :: nat

definition theoretical_sum :: "rat option list \<Rightarrow> rat" where
  \<comment> \<open>lines 418 and 441\<close>
  "theoretical_sum current_theoretical_charges =
     sum_list (map the (filter (\<lambda>charge. charge \<noteq> None \<and> charge \<noteq> Some 0)
       current_theoretical_charges))"

definition flush :: "string \<Rightarrow> string list \<Rightarrow> rat option list \<Rightarrow> resource_total" where
  \<comment> \<open>lines 418 to 424, and again 441 to 447\<close>
  "flush current_resource current_projects current_theoretical_charges =
     \<lparr>Ressource_cell = current_resource,
      Somme_Charge_Theorique = theoretical_sum current_theoretical_charges,
      Nombre_de_projets = length current_projects\<rparr>"

definition row_text :: "summary_row \<Rightarrow> string" where
  \<comment> \<open>line 412: the text of the row, the empty string when it is missing\<close>
  "row_text row = (case Resource_PROJET row of None \<Rightarrow> [] | Some s \<Rightarrow> s)"

type_synonym aggregator_state =
  "resource_total list \<times> string option \<times> string list \<times> rat option list"

text \<open>
  The loop of lines 411 to 437 on the state \<^verbatim>\<open>result_data\<close>, \<^verbatim>\<open>current_resource\<close>,
  \<^verbatim>\<open>current_projects\<close>, \<^verbatim>\<open>current_theoretical_charges\<close>. The column of the theoretical
  charge is a column of the summary, so that \<^verbatim>\<open>row.get\<close> finds it.
\<close>

fun aggregate_loop :: "summary_row list \<Rightarrow> aggregator_state \<Rightarrow> aggregator_state" where
  "aggregate_loop [] state = state"
| "aggregate_loop (row # rest)
     (result_data, current_resource, current_projects, current_theoretical_charges) =
     (let resource_projet = row_text row
      in if \<not> indented resource_projet \<and> py_strip resource_projet \<noteq> []
         then aggregate_loop rest
                ((case current_resource of
                    None \<Rightarrow> result_data
                  | Some r \<Rightarrow>
                      result_data @ [flush r current_projects current_theoretical_charges]),
                 Some (py_strip resource_projet), [], [])
         else if indented resource_projet \<and> current_resource \<noteq> None
         then aggregate_loop rest
                (result_data, current_resource,
                 current_projects @ [py_strip resource_projet],
                 current_theoretical_charges @ [Charge_Theorique row])
         else aggregate_loop rest
                (result_data, current_resource, current_projects, current_theoretical_charges))"

definition sort_descending :: "resource_total list \<Rightarrow> resource_total list" where
  \<comment> \<open>line 454: rows with the same sum keep their order (numpy promises no order among
      them; no theorem below rests on it)\<close>
  "sort_descending result_data = rev (sort_key Somme_Charge_Theorique (rev result_data))"

definition final_flush :: "aggregator_state \<Rightarrow> resource_total list" where
  \<comment> \<open>lines 440 to 447\<close>
  "final_flush state =
     (case state of
        (result_data, current_resource, current_projects, current_theoretical_charges) \<Rightarrow>
          (case current_resource of
             None \<Rightarrow> result_data
           | Some r \<Rightarrow> result_data @ [flush r current_projects current_theoretical_charges]))"

definition create_theoretical_charge_by_resource_from_summary ::
  "summary_row list \<Rightarrow> resource_total list" where
  "create_theoretical_charge_by_resource_from_summary resource_summary_df =
     (if resource_summary_df = [] then []
      else let result_data = final_flush (aggregate_loop resource_summary_df ([], None, [], []))
           in if result_data = [] then [] else sort_descending result_data)"


section \<open>Charge calculator: \<^verbatim>\<open>calculate_charge_jh\<close>\<close>

text \<open>
  \<^verbatim>\<open>df_copy['Soumise (h)'] / 8\<close>, cell by cell: the quotient of a number, a missing value
  for a missing value, and \<^verbatim>\<open>TypeError\<close> (here \<open>None\<close>) for a string or a date.
\<close>

fun divide_by_8 :: "cell \<Rightarrow> cell option" where
  "divide_by_8 (Num x) = Some (Num (x / 8))"
| "divide_by_8 Null = Some Null"
| "divide_by_8 (Str s) = None"
| "divide_by_8 (Timestamp y m d) = None"

definition charge_jh_values :: "dataframe \<Rightarrow> py_error + (row \<Rightarrow> cell)" where
  \<comment> \<open>the right-hand side of line 61: the value of the new column on each row\<close>
  "charge_jh_values df_copy =
     (if ''Soumise (h)'' \<notin> set (columns df_copy) then Inl KeyError
      else if list_all (\<lambda>r. divide_by_8 (r ''Soumise (h)'') \<noteq> None) (rows df_copy)
      then Inr (\<lambda>r. the (divide_by_8 (r ''Soumise (h)'')))
      else Inl TypeError)"

definition calculate_charge_jh :: "dataframe \<Rightarrow> py_error + dataframe" where
  "calculate_charge_jh df =
     (let df_copy = df
      in case charge_jh_values df_copy of
           Inl e \<Rightarrow> Inl e
         | Inr values \<Rightarrow> Inr (set_column df_copy ''Charge JH'' values))"

section \<open>Objects and mutation\<close>

text \<open>
  The definitions above give the table a function returns. To state what a function
  does to the table it is given, the tables are objects in a store: a reference is a
  position in the list of the objects, a new object goes to the end of the list, and an
  assignment to a column or to cells of a table (\<^verbatim>\<open>df[c] = ...\<close>, \<^verbatim>\<open>df.loc[...] = ...\<close>,
  \<^verbatim>\<open>df.columns = ...\<close>) replaces the object at the reference of that table. What pandas
  returns from \<^verbatim>\<open>copy\<close>, \<^verbatim>\<open>df[columns]\<close>, \<^verbatim>\<open>df[mask]\<close>, \<^verbatim>\<open>dropna\<close>, \<^verbatim>\<open>sort_values\<close>
  and \<^verbatim>\<open>pd.DataFrame(...)\<close> is a new object. The functions below are the three functions
  of the source statement by statement, each local variable a reference.
\<close>

datatype object = Frame dataframe | Pivot "pivot_row list" | Summary "summary_row list"

type_synonym store = "object list"

type_synonym ref = nat

definition allocate :: "store \<Rightarrow> object \<Rightarrow> store \<times> ref" where
  "allocate s x = (s @ [x], length s)"

definition frame_at :: "store \<Rightarrow> ref \<Rightarrow> dataframe" where
  "frame_at s a = (case s ! a of Frame d \<Rightarrow> d | _ \<Rightarrow> \<lparr>columns = [], index = [], rows = []\<rparr>)"

definition pivot_at :: "store \<Rightarrow> ref \<Rightarrow> pivot_row list" where
  "pivot_at s a = (case s ! a of Pivot p \<Rightarrow> p | _ \<Rightarrow> [])"

definition summary_at :: "store \<Rightarrow> ref \<Rightarrow> summary_row list" where
  "summary_at s a = (case s ! a of Summary p \<Rightarrow> p | _ \<Rightarrow> [])"

definition assign :: "store \<Rightarrow> ref \<Rightarrow> (dataframe \<Rightarrow> dataframe) \<Rightarrow> store" where
  \<comment> \<open>an assignment into the table at \<open>a\<close>\<close>
  "assign s a f = s[a := Frame (f (frame_at s a))]"

definition append_rows :: "store \<Rightarrow> ref \<Rightarrow> summary_row list \<Rightarrow> store" where
  \<comment> \<open>\<^verbatim>\<open>result_df.loc[row_index, ...] = ...\<close> on new row indices of the summary at \<open>a\<close>\<close>
  "append_rows s a new_rows = s[a := Summary (summary_at s a @ new_rows)]"

definition calculate_charge_jh_store :: "store \<Rightarrow> ref \<Rightarrow> store \<times> (py_error + ref)" where
  "calculate_charge_jh_store s df =
     (case allocate s (s ! df) of
        (s1, df_copy) \<Rightarrow>
          (case charge_jh_values (frame_at s1 df_copy) of
             Inl e \<Rightarrow> (s1, Inl e)
           | Inr values \<Rightarrow>
               (assign s1 df_copy (\<lambda>d. set_column d ''Charge JH'' values), Inr df_copy)))"

definition effective_dates_store :: "store \<Rightarrow> ref \<Rightarrow> store \<times> ref" where
  \<comment> \<open>lines 174 to 183\<close>
  "effective_dates_store s df_copy =
     (let s1 = assign s df_copy
                 (\<lambda>d. set_column d ''Date effective'' (\<lambda>r. r Date_d_affectation));
          s2 = (if Date_de_creation \<in> set (columns (frame_at s1 df_copy))
                then assign s1 df_copy
                       (\<lambda>d. set_column d ''Date effective''
                          (\<lambda>r. if isna (r Date_d_affectation) \<and> \<not> isna (r Date_de_creation)
                                then r Date_de_creation else r ''Date effective''))
                else s1)
      in allocate s2
           (Frame (filter_rows (\<lambda>r. \<not> isna (r ''Date effective'')) (frame_at s2 df_copy))))"

definition parse_dates_store :: "date_parser \<Rightarrow> store \<Rightarrow> ref \<Rightarrow> store \<times> ref" where
  \<comment> \<open>lines 189 and 190\<close>
  "parse_dates_store parse s df_copy =
     (let column = map (\<lambda>r. r ''Date effective'') (rows (frame_at s df_copy));
          s1 = assign s df_copy
                 (\<lambda>d. set_column d ''Date effective''
                    (\<lambda>r. to_datetime parse column (r ''Date effective'')))
      in allocate s1
           (Frame (filter_rows (\<lambda>r. \<not> isna (r ''Date effective'')) (frame_at s1 df_copy))))"

definition sorted_projects_store ::
  "date_parser \<Rightarrow> store \<Rightarrow> ref \<Rightarrow> string list option \<Rightarrow> store \<times> (py_error + ref option)" where
  \<comment> \<open>lines 150 to 203\<close>
  "sorted_projects_store parse s deployments_df phases_checked =
     (let allowed_phases = allowed_phases_of phases_checked in
      case select_columns (frame_at s deployments_df)
             (columns_needed (frame_at s deployments_df)) of
        Inl e \<Rightarrow> (s, Inl e)
      | Inr selected \<Rightarrow>
          (case allocate s (Frame selected) of (s1, selection) \<Rightarrow>
           case allocate s1 (s1 ! selection) of (s2, df_copy) \<Rightarrow>
           case allocate s2 (Frame (filter_rows
                  (\<lambda>r. isin (r ''Phase du projet'') allowed_phases) (frame_at s2 df_copy))) of
             (s3, df_copy) \<Rightarrow>
           case effective_dates_store s3 df_copy of (s4, df_copy) \<Rightarrow>
             if rows (frame_at s4 df_copy) = [] then (s4, Inr None)
             else case parse_dates_store parse s4 df_copy of (s5, df_copy) \<Rightarrow>
               if rows (frame_at s5 df_copy) = [] then (s5, Inr None)
               else let s6 = assign s5 df_copy
                               (\<lambda>d. set_column d Annee (\<lambda>r. dt_year (r ''Date effective'')))
                    in case select_columns (frame_at s6 df_copy) [Annee, ''Nom'', Derniere_Note] of
                         Inl e \<Rightarrow> (s6, Inl e)
                       | Inr selected \<Rightarrow>
                           (case allocate s6 (Frame selected) of (s7, selection) \<Rightarrow>
                            case allocate s7 (s7 ! selection) of (s8, result_df) \<Rightarrow>
                            let s9 = assign s8 result_df rename_result
                            in case allocate s9 (Frame (sort_by_year_name (frame_at s9 result_df))) of
                                 (s10, result_df) \<Rightarrow> (s10, Inr (Some result_df)))))"

definition finish_summary_store :: "store \<Rightarrow> ref \<Rightarrow> store \<times> ref" where
  \<comment> \<open>lines 205 to 223\<close>
  "finish_summary_store s result_df =
     (let s1 = assign s result_df add_counts;
          s2 = assign s1 result_df clear_2024_2025;
          s3 = assign s2 result_df clear_repeated_years
      in allocate s3 (Frame (reorder_columns (frame_at s3 result_df))))"

definition create_projects_by_month_summary_store ::
  "date_parser \<Rightarrow> store \<Rightarrow> ref \<Rightarrow> string list option \<Rightarrow> store \<times> (py_error + ref)" where
  "create_projects_by_month_summary_store parse s deployments_df phases_checked =
     (if Date_d_affectation \<notin> set (columns (frame_at s deployments_df))
      then (case allocate s (Frame empty_summary) of (s1, result_df) \<Rightarrow> (s1, Inr result_df))
      else case sorted_projects_store parse s deployments_df phases_checked of
             (s1, Inl e) \<Rightarrow> (s1, Inl e)
           | (s1, Inr None) \<Rightarrow>
               (case allocate s1 (Frame empty_summary) of (s2, result_df) \<Rightarrow> (s2, Inr result_df))
           | (s1, Inr (Some result_df)) \<Rightarrow>
               (case finish_summary_store s1 result_df of (s2, result_df) \<Rightarrow> (s2, Inr result_df)))"

text \<open>
  The second pass of \<^verbatim>\<open>format_resource_summary\<close> on the store: each turn of the loop writes
  the new rows into \<^verbatim>\<open>result_df\<close>. The first pass reads the sorted table and writes a
  local dictionary.
\<close>

fun second_pass_store ::
  "rule_table \<Rightarrow> lookup \<Rightarrow> lookup \<Rightarrow> store \<Rightarrow> ref \<Rightarrow> ref \<Rightarrow> string option \<Rightarrow> pivot_row list
    \<Rightarrow> store" where
  "second_pass_store rules connection_dict phase_dict s result_df pivot_df current_resource [] = s"
| "second_pass_store rules connection_dict phase_dict s result_df pivot_df current_resource
     (row # rest) =
     (let resource = Ressource row
      in if Some resource \<noteq> current_resource
         then second_pass_store rules connection_dict phase_dict
                (append_rows s result_df
                   [resource_row (pivot_at s pivot_df) resource,
                    project_row rules connection_dict phase_dict row])
                result_df pivot_df (Some resource) rest
         else second_pass_store rules connection_dict phase_dict
                (append_rows s result_df [project_row rules connection_dict phase_dict row])
                result_df pivot_df current_resource rest)"

definition format_resource_summary_store ::
  "rule_table \<Rightarrow> store \<Rightarrow> ref \<Rightarrow> lookup \<Rightarrow> lookup \<Rightarrow> (string \<rightharpoonup> cell) \<Rightarrow> store \<times> ref" where
  "format_resource_summary_store rules s pivot_df connection_dict phase_dict montant_dict =
     (case allocate s (Summary []) of (s1, result_df) \<Rightarrow>
      case allocate s1 (Pivot (sort_values (pivot_at s1 pivot_df))) of (s2, pivot_df) \<Rightarrow>
      let resource_ecarts =
            first_pass rules connection_dict phase_dict (pivot_at s2 pivot_df) Map.empty
      in (second_pass_store rules connection_dict phase_dict s2 result_df pivot_df None
            (pivot_at s2 pivot_df), result_df))"



section \<open>Notions of the properties\<close>

text \<open>
  The group of a resource in the summary (its row, then the rows of its projects); what
  the claim on the \<^verbatim>\<open>Ecart\<close> says of a row; the name and the total that the aggregator
  gets from the project rows of a resource; the value of a charge in a sum; and the two
  kinds of text the aggregator tells from an indented row: the text of a resource row
  (line 415) and the text that is blank.
\<close>

definition summary_group ::
  "rule_table \<Rightarrow> lookup \<Rightarrow> lookup \<Rightarrow> pivot_row list \<Rightarrow> pivot_row list \<Rightarrow> string \<Rightarrow> summary_row list" where
  "summary_group rules connection_dict phase_dict pivot_df xs resource =
     resource_row pivot_df resource
     # map (project_row rules connection_dict phase_dict)
         (filter (\<lambda>row. Ressource row = resource) xs)"

definition ecart_ok :: "summary_row \<Rightarrow> bool" where
  "ecart_ok r =
     (Ecart r = (case Charge_Theorique r of
                   None \<Rightarrow> None
                 | Some t \<Rightarrow> (case Charge_JH_cell r of
                                None \<Rightarrow> None
                              | Some c \<Rightarrow> Some (t - c))))"

definition project_name :: "pivot_row \<Rightarrow> string" where
  "project_name row = py_strip (''    '' @ Projet row)"

definition resource_total_of ::
  "rule_table \<Rightarrow> lookup \<Rightarrow> lookup \<Rightarrow> pivot_row list \<Rightarrow> string \<Rightarrow> resource_total" where
  "resource_total_of rules connection_dict phase_dict xs resource =
     (let g = filter (\<lambda>row. Ressource row = resource) xs
      in flush resource (map project_name g)
           (map (\<lambda>row. Charge_Theorique (project_row rules connection_dict phase_dict row)) g))"

definition charge_value :: "rat option \<Rightarrow> rat" where
  "charge_value c = (case c of None \<Rightarrow> 0 | Some x \<Rightarrow> x)"

definition is_resource_text :: "string \<Rightarrow> bool" where
  "is_resource_text s = (\<not> indented s \<and> py_strip s \<noteq> [])"

definition is_blank_text :: "string \<Rightarrow> bool" where
  "is_blank_text s = (\<not> indented s \<and> py_strip s = [])"

text \<open>
  A group of a summary is a resource row with the rows that follow it up to the next
  resource row. The project rows of a group are its rows whose text starts with four
  spaces, whatever follows the four spaces; the total of a group has the stripped text of
  its resource row, the sum of line 418 over the charges of its project rows, and the
  number of its project rows.
\<close>

definition project_rows_of :: "summary_row list \<Rightarrow> summary_row list" where
  "project_rows_of rest = filter (\<lambda>row. indented (row_text row)) rest"

definition group_rows :: "summary_row \<times> summary_row list \<Rightarrow> summary_row list" where
  "group_rows g = fst g # snd g"

definition is_group :: "summary_row \<times> summary_row list \<Rightarrow> bool" where
  "is_group g = (is_resource_text (row_text (fst g)) \<and>
     list_all (\<lambda>row. \<not> is_resource_text (row_text row)) (snd g))"

definition group_total :: "summary_row \<times> summary_row list \<Rightarrow> resource_total" where
  "group_total g =
     \<lparr>Ressource_cell = py_strip (row_text (fst g)),
      Somme_Charge_Theorique = theoretical_sum (map Charge_Theorique (project_rows_of (snd g))),
      Nombre_de_projets = length (project_rows_of (snd g))\<rparr>"

text \<open>
  A table has a unique index when it has one label for each row and no label twice, as
  the default index of pandas has.
\<close>

definition unique_index :: "dataframe \<Rightarrow> bool" where
  "unique_index df = (length (index df) = length (rows df) \<and> distinct (index df))"

text \<open>
  The columns of the year and of the count in a result of
  \<^verbatim>\<open>create_projects_by_month_summary\<close>, row by row, and the years of the sorted table of the
  dated projects.
\<close>

definition years_and_counts :: "py_error + dataframe \<Rightarrow> (cell \<times> cell) list" where
  "years_and_counts result =
     (case result of
        Inl e \<Rightarrow> []
      | Inr out \<Rightarrow> map (\<lambda>r. (r Annee, r ''Nombre de projets'')) (rows out))"

definition sorted_years :: "py_error + dataframe option \<Rightarrow> cell list" where
  "sorted_years result =
     (case result of
        Inr (Some result_df) \<Rightarrow> map (\<lambda>r. r Annee) (rows result_df)
      | _ \<Rightarrow> [])"

text \<open>
  For the store: the objects below a position are untouched and the store has only grown;
  and a result on the store agrees with a result on tables when it is the same error, or
  the reference of a new object that holds the same table.
\<close>

definition untouched :: "nat \<Rightarrow> store \<Rightarrow> store \<Rightarrow> bool" where
  "untouched n s s' = (length s \<le> length s' \<and> take n s' = take n s)"

definition agrees :: "store \<Rightarrow> store \<Rightarrow> py_error + ref \<Rightarrow> py_error + dataframe \<Rightarrow> bool" where
  "agrees s s' result expected =
     (case result of
        Inl e \<Rightarrow> expected = Inl e
      | Inr out \<Rightarrow> length s \<le> out \<and> out < length s' \<and> expected = Inr (frame_at s' out))"

definition agrees_option ::
  "store \<Rightarrow> store \<Rightarrow> py_error + ref option \<Rightarrow> py_error + dataframe option \<Rightarrow> bool" where
  "agrees_option s s' result expected =
     (case result of
        Inl e \<Rightarrow> expected = Inl e
      | Inr None \<Rightarrow> expected = Inr None
      | Inr (Some out) \<Rightarrow>
          length s \<le> out \<and> out < length s' \<and> expected = Inr (Some (frame_at s' out)))"

section \<open>Example tables\<close>

text \<open>
  A table of four projects: one assigned in 2023, one assigned in 2024, one with a
  creation date in 2023 only, and one in a phase outside the default list. Its dates are
  date cells, which the parser \<open>timestamps_only\<close> keeps (everything else is \<^verbatim>\<open>NaT\<close>).
\<close>

definition timestamps_only :: date_parser where
  "timestamps_only column c = (case c of Timestamp y m d \<Rightarrow> Some (y, m, d) | _ \<Rightarrow> None)"

definition deployment :: "string \<Rightarrow> cell \<Rightarrow> cell \<Rightarrow> string \<Rightarrow> string \<Rightarrow> row" where
  "deployment name assigned created phase note =
     (\<lambda>_. Null)(''Nom'' := Str name, Date_d_affectation := assigned,
                Date_de_creation := created, ''Phase du projet'' := Str phase,
                Derniere_Note := Str note)"

definition deployments_example :: dataframe where
  "deployments_example =
     \<lparr>columns = [''Nom'', Date_d_affectation, Date_de_creation, ''Phase du projet'', Derniere_Note],
      index = [Num 0, Num 1, Num 2, Num 3],
      rows = [deployment ''C'' (Timestamp 2023 5 2) Null (''D'' @ [CHR 0xE9] @ ''veloppement'') ''n1'',
              deployment ''B'' (Timestamp 2024 3 1) Null ''Recette interne'' ''n2'',
              deployment ''A'' Null (Timestamp 2023 1 9) (''D'' @ [CHR 0xE9] @ ''veloppement'') ''n3'',
              deployment ''G'' (Timestamp 2023 2 2) Null ''Go-live'' ''n4'']\<rparr>"

text \<open>
  A table with two rows of the project \<open>P\<close>, whose connection levels are \<open>API\<close> and
  then \<open>EDI\<close>, and one row of \<open>Q\<close> without a level.
\<close>

definition levels_example :: dataframe where
  "levels_example =
     \<lparr>columns = [''Nom'', ''Niveau de connexion''],
      index = [Num 0, Num 1, Num 2],
      rows = [(\<lambda>_. Null)(''Nom'' := Str ''P'', ''Niveau de connexion'' := Str ''API''),
              (\<lambda>_. Null)(''Nom'' := Str ''Q''),
              (\<lambda>_. Null)(''Nom'' := Str ''P'', ''Niveau de connexion'' := Str ''EDI'')]\<rparr>"

text \<open>
  A table that has the target column and a row, and no column \<^verbatim>\<open>Nom\<close>.
\<close>

definition nameless_example :: dataframe where
  "nameless_example =
     \<lparr>columns = [''Projet'', ''Phase du projet''],
      index = [Num 0],
      rows = [(\<lambda>_. Null)(''Projet'' := Str ''P'', ''Phase du projet'' := Str ''Recette interne'')]\<rparr>"

text \<open>
  A table that has the assignment date and the phase of a project, and no column \<^verbatim>\<open>Nom\<close>.
\<close>

definition unnamed_example :: dataframe where
  "unnamed_example =
     \<lparr>columns = [Date_d_affectation, ''Phase du projet''],
      index = [Num 0],
      rows = [(\<lambda>_. Null)(Date_d_affectation := Timestamp 2023 5 2,
                            ''Phase du projet'' := Str ''Recette interne'')]\<rparr>"

text \<open>
  A table of three projects in a phase of the default list, assigned in 2022, 2023 and
  2023, whose rows all have the label 0 (as the rows of three tables of one row each have
  when \<^verbatim>\<open>pd.concat\<close> puts them together).
\<close>

definition repeated_index_example :: dataframe where
  "repeated_index_example =
     \<lparr>columns = [''Nom'', Date_d_affectation, ''Phase du projet'', Derniere_Note],
      index = [Num 0, Num 0, Num 0],
      rows = [deployment ''A'' (Timestamp 2022 5 2) Null ''Recette interne'' ''n1'',
              deployment ''B'' (Timestamp 2023 3 1) Null ''Recette interne'' ''n2'',
              deployment ''C'' (Timestamp 2023 4 9) Null ''Recette interne'' ''n3'']\<rparr>"

text \<open>
  A rule table with two entries, the lookups of two projects, and a pivot table of two
  resources. The project \<open>P1\<close> resolves to the charge 5, the project \<open>P2\<close> to the
  charge 0, and the project \<open>P3\<close> has no connection level.
\<close>

definition rules_example :: rule_table where
  "rules_example c p =
     (if c = Some ''Connexion EDI'' \<and> p = Some ''Recette interne'' then Some 5
      else if c = Some ''Connexion API'' then Some 0 else None)"

definition allocation :: "string \<Rightarrow> string \<Rightarrow> rat \<Rightarrow> pivot_row" where
  "allocation r p c =
     \<lparr>Ressource = r, Projet = p, Charge_JH = Some c, Montant = Null, Note = Null, Duree = Null\<rparr>"

definition connections_example :: lookup where
  "connections_example = [''P1'' \<mapsto> ''Connexion Recette'', ''P2'' \<mapsto> ''Connexion API'']"

definition phases_example :: lookup where
  "phases_example = [''P1'' \<mapsto> ''Connexion Recette int'', ''P2'' \<mapsto> ''Cadrage'']"

definition pivot_example :: "pivot_row list" where
  "pivot_example = [allocation ''Bob'' ''P2'' 2, allocation ''Alice'' ''P3'' 1, allocation ''Bob'' ''P1'' 4]"

text \<open>
  A pivot table whose second resource has a name of white space only, the no-break
  space, which sorts after the letters.
\<close>

definition blank_resource_example :: "pivot_row list" where
  "blank_resource_example = [allocation ''Alice'' ''P1'' 4, allocation [CHR 0xA0] ''P2'' 1]"

text \<open>
  Rows of a summary, given by their text and their theoretical charge: the row of the
  resource \<open>Bob\<close> followed by a row of five spaces; two rows that come before any
  resource row, one indented and one without text; and a summary of \<open>Bob\<close> with a row
  without text, a row of two spaces and a project row.
\<close>

definition text_row :: "string option \<Rightarrow> rat option \<Rightarrow> summary_row" where
  "text_row s c = empty_row\<lparr>Resource_PROJET := s, Charge_Theorique := c\<rparr>"

definition spaces_example :: "summary_row list" where
  "spaces_example = [text_row (Some ''Bob'') None, text_row (Some ''     '') (Some 3)]"

definition orphans_example :: "summary_row list" where
  "orphans_example = [text_row (Some ''    P0'') (Some 7), text_row None (Some 1)]"

definition summary_example :: "summary_row list" where
  "summary_example =
     [text_row (Some ''Bob'') None, text_row None (Some 2), text_row (Some ''  '') (Some 4),
      text_row (Some ''    P1'') (Some 5)]"

text \<open>
  A table of hours, and a store of three tables: the hours, the pivot table and the
  projects of the examples above.
\<close>

definition hours_example :: dataframe where
  "hours_example =
     \<lparr>columns = [''Projet'', ''Soumise (h)''],
      index = [Num 0, Num 1],
      rows = [(\<lambda>_. Null)(''Projet'' := Str ''P1'', ''Soumise (h)'' := Num 16),
              (\<lambda>_. Null)(''Projet'' := Str ''P2'')]\<rparr>"

definition store_example :: store where
  "store_example = [Frame hours_example, Pivot pivot_example, Frame deployments_example]"

section \<open>Properties of the lookup builder\<close>

lemma connection_loop_KeyError:
  "''Nom'' \<notin> set (columns df) \<Longrightarrow> rs \<noteq> [] \<Longrightarrow> connection_loop df c rs d = Inl KeyError"
  by (cases rs) (simp_all add: getitem_def)

lemma connection_loop_last:
  assumes "''Nom'' \<in> set (columns df)" and "c \<in> set (columns df)"
  shows "connection_loop df c rs d =
    Inr (\<lambda>name. case map (\<lambda>r. r c) (filter (\<lambda>r. r ''Nom'' = name \<and> \<not> isna (r c)) rs) of
                   [] \<Rightarrow> d name
                 | v # vs \<Rightarrow> Some (last (v # vs)))"
  using assms
proof (induction rs arbitrary: d)
  case Nil
  then show ?case by simp
next
  case (Cons r rs)
  show ?case
  proof (cases "isna (r c)")
    case True
    then show ?thesis
      using Cons by (simp add: getitem_def row_get_def)
  next
    case False
    have "connection_loop df c (r # rs) d = connection_loop df c rs (d(r ''Nom'' \<mapsto> r c))"
      using False Cons.prems by (simp add: getitem_def row_get_def)
    also have "\<dots> = Inr (\<lambda>name. case map (\<lambda>r. r c)
          (filter (\<lambda>r. r ''Nom'' = name \<and> \<not> isna (r c)) rs) of
                   [] \<Rightarrow> (d(r ''Nom'' \<mapsto> r c)) name
                 | v # vs \<Rightarrow> Some (last (v # vs)))"
      using Cons.IH [OF Cons.prems] .
    also have "\<dots> = Inr (\<lambda>name. case map (\<lambda>r. r c)
          (filter (\<lambda>r. r ''Nom'' = name \<and> \<not> isna (r c)) (r # rs)) of
                   [] \<Rightarrow> d name
                 | v # vs \<Rightarrow> Some (last (v # vs)))"
      using False by (auto simp: fun_eq_iff split: list.splits)
    finally show ?thesis .
  qed
qed

text \<open>
  C3, as amended. When the target column and the column \<^verbatim>\<open>Nom\<close> are in the schema,
  \<^verbatim>\<open>create_connection_dict\<close> maps every name to the LAST non-null value of the target
  column among the rows of that name, in row order (a later non-null value replaces an
  earlier one, null or not), and has no entry for a name without a non-null value.
\<close>

theorem create_connection_dict_last_non_null:
  assumes "column_name \<in> set (columns df)" and "''Nom'' \<in> set (columns df)"
  shows "create_connection_dict df column_name =
    Inr (\<lambda>name. case non_null_values df column_name name of
                   [] \<Rightarrow> None
                 | v # vs \<Rightarrow> Some (last (v # vs)))"
  using connection_loop_last [OF assms(2) assms(1), of "rows df" Map.empty] assms(1)
  by (simp add: create_connection_dict_def non_null_values_def)

theorem create_connection_dict_last_non_null_witness:
  "''Niveau de connexion'' \<in> set (columns levels_example) \<and>
   ''Nom'' \<in> set (columns levels_example) \<and>
   non_null_values levels_example ''Niveau de connexion'' (Str ''P'') = [Str ''API'', Str ''EDI''] \<and>
   (case create_connection_dict levels_example ''Niveau de connexion'' of
      Inl e \<Rightarrow> None | Inr d \<Rightarrow> d (Str ''P'')) = Some (Str ''EDI'') \<and>
   (case create_connection_dict levels_example ''Niveau de connexion'' of
      Inl e \<Rightarrow> Some Null | Inr d \<Rightarrow> d (Str ''Q'')) = None"
proof -
  have c: "''Niveau de connexion'' \<in> set (columns levels_example)"
    and n: "''Nom'' \<in> set (columns levels_example)"
    by (simp_all add: levels_example_def)
  have v: "non_null_values levels_example ''Niveau de connexion'' (Str ''P'')
      = [Str ''API'', Str ''EDI'']"
    and q: "non_null_values levels_example ''Niveau de connexion'' (Str ''Q'') = []"
    by (simp_all add: levels_example_def non_null_values_def isna_def)
  show ?thesis
    using create_connection_dict_last_non_null [OF c n] c n v q by simp
qed

text \<open>
  The claim C3 as the specification states it fails on the table \<open>levels_example\<close>:
  the first non-null value of \<open>P\<close> is \<open>API\<close>, it is not null, and still the later row
  replaces it.
\<close>

theorem create_connection_dict_first_non_null_counterexample:
  "hd (non_null_values levels_example ''Niveau de connexion'' (Str ''P'')) = Str ''API'' \<and>
   (case create_connection_dict levels_example ''Niveau de connexion'' of
      Inl e \<Rightarrow> None | Inr d \<Rightarrow> d (Str ''P'')) \<noteq> Some (Str ''API'')"
  by (simp add: levels_example_def non_null_values_def isna_def create_connection_dict_def
      getitem_def row_get_def)

text \<open>
  C9. When the target column is in the schema, the column \<^verbatim>\<open>Nom\<close> is not, and the table
  has a row, \<^verbatim>\<open>create_connection_dict\<close> raises \<^verbatim>\<open>KeyError\<close>; in every other case (\<^verbatim>\<open>Nom\<close>
  is in the schema, or the table has no row, or the target column is absent) it returns
  a mapping.
\<close>

theorem create_connection_dict_KeyError:
  "(column_name \<in> set (columns df) \<and> ''Nom'' \<notin> set (columns df) \<and> rows df \<noteq> []
      \<longrightarrow> create_connection_dict df column_name = Inl KeyError) \<and>
   (''Nom'' \<in> set (columns df) \<or> rows df = [] \<or> column_name \<notin> set (columns df)
      \<longrightarrow> (\<exists>d. create_connection_dict df column_name = Inr d))"
proof (intro conjI impI)
  assume "column_name \<in> set (columns df) \<and> ''Nom'' \<notin> set (columns df) \<and> rows df \<noteq> []"
  then show "create_connection_dict df column_name = Inl KeyError"
    by (simp add: create_connection_dict_def connection_loop_KeyError)
next
  assume a: "''Nom'' \<in> set (columns df) \<or> rows df = [] \<or> column_name \<notin> set (columns df)"
  show "\<exists>d. create_connection_dict df column_name = Inr d"
  proof (cases "column_name \<in> set (columns df)")
    case False
    then show ?thesis by (simp add: create_connection_dict_def)
  next
    case True
    show ?thesis
    proof (cases "rows df = []")
      case True
      then show ?thesis by (simp add: create_connection_dict_def)
    next
      case False
      with a True have "''Nom'' \<in> set (columns df)" by simp
      from connection_loop_last [OF this True, of "rows df" Map.empty] True
      show ?thesis by (simp add: create_connection_dict_def)
    qed
  qed
qed

theorem create_connection_dict_KeyError_witness:
  "''Phase du projet'' \<in> set (columns nameless_example) \<and>
   ''Nom'' \<notin> set (columns nameless_example) \<and> rows nameless_example \<noteq> [] \<and>
   create_connection_dict nameless_example ''Phase du projet'' = Inl KeyError \<and>
   ''Nom'' \<in> set (columns levels_example) \<and>
   (\<exists>d. create_connection_dict levels_example ''Niveau de connexion'' = Inr d)"
proof -
  have a: "''Phase du projet'' \<in> set (columns nameless_example) \<and>
      ''Nom'' \<notin> set (columns nameless_example) \<and> rows nameless_example \<noteq> []"
    by (simp add: nameless_example_def)
  have b: "''Nom'' \<in> set (columns levels_example)"
    by (simp add: levels_example_def)
  show ?thesis
    using create_connection_dict_KeyError [of "''Phase du projet''" nameless_example]
      create_connection_dict_KeyError [of "''Niveau de connexion''" levels_example] a b
    by simp
qed

section \<open>Properties of the resolver\<close>

lemma mapping_get_connection_cases:
  "mapping_get connection_mapping s = s \<or> mapping_get connection_mapping s = ''Connexion EDI''"
  by (simp add: mapping_get_def connection_mapping_def)

lemma mapping_get_connection_EDI:
  "mapping_get connection_mapping ''Connexion EDI'' = ''Connexion EDI''"
  by (simp add: mapping_get_def connection_mapping_def)

lemma mapping_get_connection_nonempty:
  "s \<noteq> [] \<Longrightarrow> mapping_get connection_mapping s \<noteq> []"
  by (simp add: mapping_get_def connection_mapping_def)

text \<open>
  C7. \<^verbatim>\<open>normalize_connection_level\<close> is idempotent, on every string and on \<^verbatim>\<open>None\<close>.
\<close>

theorem normalize_connection_level_idempotent:
  "normalize_connection_level (normalize_connection_level x) = normalize_connection_level x"
proof (cases x)
  case None
  then show ?thesis by (simp add: normalize_connection_level_def)
next
  case (Some s)
  show ?thesis
  proof (cases "s = []")
    case True
    with Some show ?thesis by (simp add: normalize_connection_level_def)
  next
    case False
    from mapping_get_connection_cases [of s] show ?thesis
    proof
      assume "mapping_get connection_mapping s = s"
      with Some False show ?thesis by (simp add: normalize_connection_level_def)
    next
      assume "mapping_get connection_mapping s = ''Connexion EDI''"
      with Some False show ?thesis
        by (simp add: normalize_connection_level_def mapping_get_connection_EDI)
    qed
  qed
qed

section \<open>Properties of the year summary builder\<close>

lemma tl_strict_sorted_iff:
  "sorted_wrt (<) (xs :: nat list) \<Longrightarrow> x \<in> set (tl xs) \<longleftrightarrow> x \<in> set xs \<and> (\<exists>y\<in>set xs. y < x)"
  by (cases xs) (auto simp: less_le_not_le)

lemma strict_sorted_filter_upt: "sorted_wrt (<) (filter P [0..<n])"
  by (simp add: sorted_wrt_filter)

lemma tl_filter_upt_iff:
  assumes "i < n"
  shows "i \<in> set (tl (filter P [0..<n])) \<longleftrightarrow> P i \<and> (\<exists>j<i. P j)"
proof -
  let ?F = "filter P [0..<n]"
  have "i \<in> set (tl ?F) \<longleftrightarrow> i \<in> set ?F \<and> (\<exists>y\<in>set ?F. y < i)"
    by (rule tl_strict_sorted_iff [OF strict_sorted_filter_upt])
  moreover have "(\<exists>y\<in>set ?F. y < i) \<longleftrightarrow> (\<exists>j<i. P j)"
  proof
    assume "\<exists>y\<in>set ?F. y < i"
    then show "\<exists>j<i. P j" by auto
  next
    assume "\<exists>j<i. P j"
    then obtain j where j: "j < i" "P j" by blast
    with assms have "j \<in> set ?F" by simp
    with j show "\<exists>y\<in>set ?F. y < i" by blast
  qed
  ultimately show ?thesis using assms by simp
qed

lemma tl_labels_iff:
  assumes "distinct ls" and "n \<le> length ls" and "i < n"
  shows "ls ! i \<in> set (tl (map (\<lambda>i. ls ! i) (filter P [0..<n])))
     \<longleftrightarrow> i \<in> set (tl (filter P [0..<n]))"
proof -
  let ?F = "filter P [0..<n]"
  have inj: "inj_on (\<lambda>i. ls ! i) {0..<n}"
    using assms(1,2) by (auto simp: inj_on_def nth_eq_iff_index_eq)
  have "set (tl xs) \<subseteq> set xs" for xs :: "nat list"
    by (cases xs) auto
  then have "set (tl ?F) \<subseteq> set ?F" .
  then have sub: "set (tl ?F) \<subseteq> {0..<n}" by auto
  have i: "i \<in> {0..<n}" using assms(3) by simp
  have "set (tl (map (\<lambda>i. ls ! i) ?F)) = (\<lambda>i. ls ! i) ` set (tl ?F)"
    by (cases ?F) simp_all
  then show ?thesis
    using inj_on_image_mem_iff [OF inj i sub] by simp
qed

lemma length_clear_year: "length (clear_year ls y rs) = length rs"
  by (simp add: clear_year_def Let_def)

lemma clear_year_cases:
  assumes "i < length rs"
  shows "clear_year ls y rs ! i = rs ! i \<or> clear_year ls y rs ! i = clear_cells (rs ! i)"
  using assms by (simp add: clear_year_def Let_def)

lemma length_fold_clear_year: "length (fold (clear_year ls) ys rs) = length rs"
  by (induction ys arbitrary: rs) (simp_all add: length_clear_year)

lemma fold_clear_year_other:
  assumes "i < length rs" and "c \<noteq> Annee" and "c \<noteq> ''Nombre de projets''"
  shows "(fold (clear_year ls) ys rs ! i) c = (rs ! i) c"
  using assms(1)
proof (induction ys arbitrary: rs)
  case Nil
  show ?case by simp
next
  case (Cons y ys)
  have len: "i < length (clear_year ls y rs)"
    using Cons.prems by (simp add: length_clear_year)
  have "(clear_year ls y rs ! i) c = (rs ! i) c"
    using clear_year_cases [OF Cons.prems, of ls y] assms(2,3)
    by (auto simp: clear_cells_def)
  with Cons.IH [OF len] show ?case by simp
qed

lemma clear_year_map:
  assumes "distinct ls" and "length ls = length rs"
  shows "clear_year ls y rs =
     map (\<lambda>i. if (rs ! i) Annee = y \<and> (\<exists>j<i. (rs ! j) Annee = y)
               then clear_cells (rs ! i) else rs ! i) [0..<length rs]"
proof -
  let ?P = "\<lambda>i. (rs ! i) Annee = y"
  let ?is = "filter ?P [0..<length rs]"
  let ?ls = "map (\<lambda>i. ls ! i) ?is"
  have le: "length rs \<le> length ls" using assms(2) by simp
  have m: "map (\<lambda>i. if ls ! i \<in> set (tl ?ls) then clear_cells (rs ! i) else rs ! i) [0..<length rs]
     = map (\<lambda>i. if ?P i \<and> (\<exists>j<i. ?P j) then clear_cells (rs ! i) else rs ! i) [0..<length rs]"
    by (rule map_cong [OF refl])
      (simp only: tl_labels_iff [OF assms(1) le, of _ ?P]
        tl_filter_upt_iff [of _ "length rs" ?P] atLeastLessThan_iff set_upt)
  have c: "clear_year ls y rs = (if length ?ls > 1
      then map (\<lambda>i. if ls ! i \<in> set (tl ?ls) then clear_cells (rs ! i) else rs ! i) [0..<length rs]
      else rs)"
    unfolding clear_year_def Let_def ..
  show ?thesis
  proof (cases "length ?ls > 1")
    case True
    with c m show ?thesis by (simp only: if_True)
  next
    case False
    then have "tl ?ls = []" by (cases ?ls) auto
    then have "map (\<lambda>i. if ls ! i \<in> set (tl ?ls) then clear_cells (rs ! i) else rs ! i) [0..<length rs] = rs"
      by (simp add: map_nth)
    with False c m show ?thesis by (simp only: if_False)
  qed
qed

lemma clear_year_nth:
  assumes "distinct ls" and "length ls = length rs" and "i < length rs"
  shows "clear_year ls y rs ! i =
     (if (rs ! i) Annee = y \<and> (\<exists>j<i. (rs ! j) Annee = y)
      then clear_cells (rs ! i) else rs ! i)"
  unfolding clear_year_map [OF assms(1,2)]
  using assms(3) by (simp only: nth_map_upt minus_nat.diff_0 add_0)

lemma fold_clear_year_nth:
  assumes "distinct ls" and "length ls = length rs"
    and "distinct ys" and "Str [] \<notin> set ys" and "i < length rs"
  shows "fold (clear_year ls) ys rs ! i =
     (if (rs ! i) Annee \<in> set ys \<and> (\<exists>j<i. (rs ! j) Annee = (rs ! i) Annee)
      then clear_cells (rs ! i)
      else rs ! i)"
  using assms(2-)
proof (induction ys arbitrary: rs)
  case Nil
  then show ?case by simp
next
  case (Cons y ys)
  let ?rs = "clear_year ls y rs"
  note nth = clear_year_nth [OF assms(1) Cons.prems(1)]
  have len: "i < length ?rs" using Cons.prems by (simp add: length_clear_year)
  have lls: "length ls = length ?rs" using Cons.prems by (simp add: length_clear_year)
  have d: "distinct ys" "Str [] \<notin> set ys" "y \<notin> set ys" "y \<noteq> Str []"
    using Cons.prems by auto
  have IH: "fold (clear_year ls) ys ?rs ! i =
     (if (?rs ! i) Annee \<in> set ys \<and> (\<exists>j<i. (?rs ! j) Annee = (?rs ! i) Annee)
      then clear_cells (?rs ! i)
      else ?rs ! i)"
    using Cons.IH [OF lls d(1) d(2) len] .
  have yr: "(?rs ! k) Annee = (if (rs ! k) Annee = y \<and> (\<exists>j<k. (rs ! j) Annee = y) then Str [] else (rs ! k) Annee)"
    if "k < length rs" for k
    using that by (auto simp: nth clear_cells_def)
  show ?case
  proof (cases "(rs ! i) Annee = y")
    case True
    then have "(?rs ! i) Annee \<notin> set ys"
      using yr [OF Cons.prems(4)] d by auto
    with IH True show ?thesis
      using Cons.prems(4) d by (auto simp: nth)
  next
    case False
    then have same: "?rs ! i = rs ! i" using Cons.prems(4) by (simp add: nth)
    show ?thesis
    proof (cases "(rs ! i) Annee \<in> set ys")
      case False
      with IH same \<open>(rs ! i) Annee \<noteq> y\<close> show ?thesis by auto
    next
      case True
      then have z: "(rs ! i) Annee \<noteq> Str []" using d by auto
      have "(\<exists>j<i. (?rs ! j) Annee = (rs ! i) Annee) \<longleftrightarrow> (\<exists>j<i. (rs ! j) Annee = (rs ! i) Annee)"
      proof -
        have "(?rs ! j) Annee = (rs ! i) Annee \<longleftrightarrow> (rs ! j) Annee = (rs ! i) Annee" if "j < i" for j
        proof -
          from that Cons.prems(4) have "j < length rs" by simp
          from yr [OF this] z \<open>(rs ! i) Annee \<noteq> y\<close> show ?thesis by auto
        qed
        then show ?thesis by auto
      qed
      with IH same True \<open>(rs ! i) Annee \<noteq> y\<close> show ?thesis by auto
    qed
  qed
qed

lemma distinct_unique: "distinct (unique xs)"
  by (simp add: unique_def)

lemma set_unique: "set (unique xs) = set xs"
  by (simp add: unique_def)

lemma length_rows_finish: "length (rows (finish_summary t)) = length (rows t)"
  by (simp add: finish_summary_def reorder_columns_def clear_repeated_years_def
      clear_2024_2025_def add_counts_def set_column_def length_fold_clear_year)

lemma rows_before_loop:
  "rows (clear_2024_2025 (add_counts t)) = map (\<lambda>r. cleared (counted t r)) (rows t)"
  by (simp add: clear_2024_2025_def add_counts_def set_column_def cleared_def counted_def)

lemma index_before_loop: "index (clear_2024_2025 (add_counts t)) = index t"
  by (simp add: clear_2024_2025_def add_counts_def set_column_def)

lemma Annee_cleared_counted: "cleared (counted t r) Annee = r Annee"
  by (simp add: cleared_def counted_def)

lemma rows_finish_summary:
  "rows (finish_summary t) =
     fold (clear_year (index t))
       (unique (map (\<lambda>r. r Annee) (map (\<lambda>r. cleared (counted t r)) (rows t))))
       (map (\<lambda>r. cleared (counted t r)) (rows t))"
  by (simp add: finish_summary_def reorder_columns_def clear_repeated_years_def
      rows_before_loop index_before_loop)

lemma finish_summary_other:
  assumes "i < length (rows t)" and "c \<noteq> Annee" and "c \<noteq> ''Nombre de projets''"
  shows "(rows (finish_summary t) ! i) c = cleared (counted t (rows t ! i)) c"
  unfolding rows_finish_summary
  using fold_clear_year_other [OF _ assms(2,3), of i "map (\<lambda>r. cleared (counted t r)) (rows t)"]
    assms(1)
  by simp

lemma finish_summary_nth:
  assumes "unique_index t"
    and "\<forall>r\<in>set (rows t). r Annee \<noteq> Str []" and "i < length (rows t)"
  shows "rows (finish_summary t) ! i =
     (if \<exists>j<i. (rows t ! j) Annee = (rows t ! i) Annee
      then clear_cells (cleared (counted t (rows t ! i)))
      else cleared (counted t (rows t ! i)))"
proof -
  let ?rs = "map (\<lambda>r. cleared (counted t r)) (rows t)"
  let ?ys = "unique (map (\<lambda>r. r Annee) ?rs)"
  have dl: "distinct (index t)" and ll: "length (index t) = length ?rs"
    using assms(1) by (simp_all add: unique_index_def)
  have yr: "(?rs ! k) Annee = (rows t ! k) Annee" if "k < length (rows t)" for k
    using that by (simp add: Annee_cleared_counted)
  have "set ?ys = (\<lambda>r. r Annee) ` set (rows t)"
    by (simp add: set_unique image_image Annee_cleared_counted)
  then have no: "Str [] \<notin> set ?ys" and mem: "(?rs ! i) Annee \<in> set ?ys"
    using assms(2,3) yr [OF assms(3)] by (auto simp del: set_map)
  have "rows (finish_summary t) ! i =
     (if (?rs ! i) Annee \<in> set ?ys \<and> (\<exists>j<i. (?rs ! j) Annee = (?rs ! i) Annee)
      then clear_cells (?rs ! i) else ?rs ! i)"
    unfolding rows_finish_summary
    using fold_clear_year_nth [OF dl ll distinct_unique no, of i] assms(3) by simp
  moreover have "(\<exists>j<i. (?rs ! j) Annee = (?rs ! i) Annee)
      \<longleftrightarrow> (\<exists>j<i. (rows t ! j) Annee = (rows t ! i) Annee)"
  proof -
    have "(?rs ! j) Annee = (?rs ! i) Annee \<longleftrightarrow> (rows t ! j) Annee = (rows t ! i) Annee"
      if "j < i" for j
    proof -
      from that assms(3) have "j < length (rows t)" by simp
      from yr [OF this] yr [OF assms(3)] show ?thesis by simp
    qed
    then show ?thesis by blast
  qed
  ultimately show ?thesis using mem assms(3) by auto
qed

subsection \<open>The labels of the rows\<close>

text \<open>
  In a table that has a label for each row, a filter and the sort keep each row with its
  label.
\<close>

lemma map_snd_insort_key:
  "map snd (insort_key (\<lambda>labelled. k (snd labelled)) z zs) = insort_key k (snd z) (map snd zs)"
  by (induction zs) simp_all

lemma map_snd_sort_key:
  "map snd (sort_key (\<lambda>labelled. k (snd labelled)) zs) = sort_key k (map snd zs)"
  by (induction zs) (simp_all add: map_snd_insort_key)

lemma filter_rows_labelled:
  assumes "length (index df) = length (rows df)"
  shows "zip (index (filter_rows keep df)) (rows (filter_rows keep df)) =
     filter (\<lambda>labelled. keep (snd labelled)) (zip (index df) (rows df))"
proof -
  let ?z = "zip (index df) (rows df)"
  have "filter keep (map snd ?z) = map snd (filter (\<lambda>labelled. keep (snd labelled)) ?z)"
    by (simp add: filter_map comp_def)
  then have "rows (filter_rows keep df) = map snd (filter (\<lambda>labelled. keep (snd labelled)) ?z)"
    using assms by (simp add: filter_rows_def)
  then show ?thesis
    by (simp add: filter_rows_def zip_map_fst_snd)
qed

lemma sort_by_year_name_labelled:
  assumes "length (index df) = length (rows df)"
  shows "zip (index (sort_by_year_name df)) (rows (sort_by_year_name df)) =
     sort_key (\<lambda>labelled. (cell_key (snd labelled Annee),
                             cell_key (snd labelled ''Nom du projet'')))
       (zip (index df) (rows df))"
proof -
  let ?k = "\<lambda>r::row. (cell_key (r Annee), cell_key (r ''Nom du projet''))"
  have "rows (sort_by_year_name df)
      = map snd (sort_key (\<lambda>labelled. ?k (snd labelled)) (zip (index df) (rows df)))"
    using assms map_snd_sort_key [of ?k "zip (index df) (rows df)"]
    by (simp add: sort_by_year_name_def)
  then show ?thesis
    by (simp add: sort_by_year_name_def zip_map_fst_snd)
qed

subsection \<open>Tables whose labels are distinct\<close>

lemma unique_index_filter_rows: "unique_index df \<Longrightarrow> unique_index (filter_rows keep df)"
proof -
  assume u: "unique_index df"
  let ?z = "zip (index df) (rows df)"
  from u have l: "length (index df) = length (rows df)" and d: "distinct (index df)"
    by (simp_all add: unique_index_def)
  have "filter keep (map snd ?z) = map snd (filter (\<lambda>labelled. keep (snd labelled)) ?z)"
    by (simp add: filter_map comp_def)
  then have "length (filter keep (rows df))
      = length (filter (\<lambda>labelled. keep (snd labelled)) ?z)"
    using l by simp
  moreover have "distinct (map fst (filter (\<lambda>labelled. keep (snd labelled)) ?z))"
    using d l by (simp add: distinct_map_filter)
  ultimately show ?thesis
    by (simp add: unique_index_def filter_rows_def)
qed

lemma unique_index_set_column: "unique_index df \<Longrightarrow> unique_index (set_column df c v)"
  by (simp add: unique_index_def set_column_def)

lemma unique_index_effective_dates: "unique_index df \<Longrightarrow> unique_index (effective_dates df)"
  by (simp add: effective_dates_def Let_def unique_index_filter_rows unique_index_set_column)

lemma unique_index_parse_dates: "unique_index df \<Longrightarrow> unique_index (parse_dates parse df)"
  by (simp add: parse_dates_def Let_def unique_index_filter_rows unique_index_set_column)

lemma unique_index_sort_by_year_name:
  "unique_index df \<Longrightarrow> unique_index (sort_by_year_name df)"
proof -
  assume u: "unique_index df"
  from u have l: "length (index df) = length (rows df)" and d: "distinct (index df)"
    by (simp_all add: unique_index_def)
  have "distinct (map fst (sort_key k (zip (index df) (rows df))))" for k :: "label \<times> row \<Rightarrow> (nat \<times> rat \<times> string) \<times> (nat \<times> rat \<times> string)"
  proof -
    have "distinct (map fst (zip (index df) (rows df)))" using d l by simp
    then show ?thesis by (simp add: distinct_map)
  qed
  then show ?thesis
    using l by (simp add: unique_index_def sort_by_year_name_def)
qed

lemma unique_index_select:
  "unique_index df \<Longrightarrow> select_columns df cs = Inr df' \<Longrightarrow> unique_index df'"
  by (auto simp: select_columns_def unique_index_def split: if_splits)

lemma unique_index_rename_result: "unique_index df \<Longrightarrow> unique_index (rename_result df)"
  by (simp add: unique_index_def rename_result_def)

lemma sorted_projects_unique_index:
  assumes "unique_index df" and "sorted_projects parse df ph = Inr (Some t)"
  shows "unique_index t"
proof -
  from assms(2) obtain df_copy keep v result_df where
    c: "select_columns df (columns_needed df) = Inr df_copy"
    and r: "select_columns
          (set_column (parse_dates parse (effective_dates (filter_rows keep df_copy))) Annee v)
          [Annee, ''Nom'', Derniere_Note] = Inr result_df"
    and t: "t = sort_by_year_name (rename_result result_df)"
    by (auto simp: sorted_projects_def Let_def split: sum.splits if_splits)
  from unique_index_select [OF assms(1) c]
  have "unique_index (set_column (parse_dates parse (effective_dates (filter_rows keep df_copy)))
      Annee v)"
    by (intro unique_index_set_column unique_index_parse_dates unique_index_effective_dates
        unique_index_filter_rows)
  from unique_index_select [OF this r] show ?thesis
    unfolding t by (intro unique_index_sort_by_year_name unique_index_rename_result)
qed

lemma to_datetime_cases: "to_datetime parse col c = Null \<or> (\<exists>y m d. to_datetime parse col c = Timestamp y m d)"
  by (auto simp: to_datetime_def split: option.splits)

lemma parse_dates_rows:
  "r \<in> set (rows (parse_dates parse t)) \<Longrightarrow> \<exists>y m d. r ''Date effective'' = Timestamp y m d"
  using to_datetime_cases
  by (fastforce simp: parse_dates_def filter_rows_def set_column_def Let_def isna_def)

lemma sorted_fst_key:
  "sorted (map (\<lambda>r. (f r, g r)) xs) \<Longrightarrow> sorted (map f xs)"
  by (induction xs) (auto simp: less_eq_prod_def)

lemma sorted_projects_years:
  assumes "sorted_projects parse df ph = Inr (Some t)"
  shows "\<forall>r\<in>set (rows t). \<exists>y. r Annee = Num (of_int y)"
proof -
  from assms obtain t3 where
    t: "rows t = sort_key (\<lambda>r. (cell_key (r Annee), cell_key (r ''Nom du projet'')))
          (map (\<lambda>r. (\<lambda>_. Null)(Annee := r Annee, ''Nom du projet'' := r ''Nom'',
                                  Derniere_Note := r Derniere_Note))
            (map (\<lambda>r. r(Annee := dt_year (r ''Date effective''))) (rows (parse_dates parse t3))))"
    by (auto simp: sorted_projects_def Let_def select_columns_def set_column_def
        sort_by_year_name_def rename_result_def split: sum.splits if_splits)
  show ?thesis
  proof
    fix r assume "r \<in> set (rows t)"
    with t obtain r3 where r3: "r3 \<in> set (rows (parse_dates parse t3))"
      and r: "r Annee = dt_year (r3 ''Date effective'')"
      by auto
    from parse_dates_rows [OF r3] r show "\<exists>y. r Annee = Num (of_int y)" by auto
  qed
qed

lemma sorted_projects_sorted:
  assumes "sorted_projects parse df ph = Inr (Some t)"
  shows "sorted (map (\<lambda>r. cell_key (r Annee)) (rows t))"
proof -
  from assms obtain xs where
    "rows t = sort_key (\<lambda>r. (cell_key (r Annee), cell_key (r ''Nom du projet''))) xs"
    by (auto simp: sorted_projects_def Let_def select_columns_def
        sort_by_year_name_def split: sum.splits if_splits)
  then have "sorted (map (\<lambda>r. (cell_key (r Annee), cell_key (r ''Nom du projet''))) (rows t))"
    by simp
  then show ?thesis by (rule sorted_fst_key)
qed

lemma first_of_group_iff:
  assumes y: "\<forall>r\<in>set rs. \<exists>y. r Annee = Num (of_int y)"
    and s: "sorted (map (\<lambda>r. cell_key (r Annee)) rs)"
    and i: "i < length rs"
  shows "(\<exists>j<i. (rs ! j) Annee = (rs ! i) Annee) \<longleftrightarrow> (0 < i \<and> (rs ! (i - 1)) Annee = (rs ! i) Annee)"
proof
  assume "0 < i \<and> (rs ! (i - 1)) Annee = (rs ! i) Annee"
  then have "i - 1 < i" "(rs ! (i - 1)) Annee = (rs ! i) Annee" by auto
  then show "\<exists>j<i. (rs ! j) Annee = (rs ! i) Annee" by blast
next
  assume "\<exists>j<i. (rs ! j) Annee = (rs ! i) Annee"
  then obtain j where j: "j < i" "(rs ! j) Annee = (rs ! i) Annee" by blast
  then have pos: "0 < i" by simp
  have le1: "cell_key ((rs ! j) Annee) \<le> cell_key ((rs ! (i - 1)) Annee)"
    using sorted_nth_mono [OF s, of j "i - 1"] j i by simp
  have le2: "cell_key ((rs ! (i - 1)) Annee) \<le> cell_key ((rs ! i) Annee)"
    using sorted_nth_mono [OF s, of "i - 1" i] i by simp
  from le1 le2 j have eq: "cell_key ((rs ! (i - 1)) Annee) = cell_key ((rs ! i) Annee)"
    by simp
  from y i obtain a where a: "(rs ! i) Annee = Num (of_int a)" by (meson nth_mem)
  from y i pos have "rs ! (i - 1) \<in> set rs" by simp
  with y obtain b where b: "(rs ! (i - 1)) Annee = Num (of_int b)" by blast
  from eq a b have "(rs ! (i - 1)) Annee = (rs ! i) Annee" by simp
  with pos show "0 < i \<and> (rs ! (i - 1)) Annee = (rs ! i) Annee" by simp
qed

lemma summary_cases:
  assumes "create_projects_by_month_summary parse df ph = Inr out" and "i < length (rows out)"
  shows "\<exists>t. sorted_projects parse df ph = Inr (Some t) \<and> out = finish_summary t"
  using assms
  by (auto simp: create_projects_by_month_summary_def empty_summary_def
      split: if_splits sum.splits option.splits)

lemma select_columns_Inr:
  "set cs \<subseteq> set (columns df) \<Longrightarrow> select_columns df cs = Inr \<lparr>columns = cs, index = index df, rows = rows df\<rparr>"
  by (auto simp: select_columns_def list_all_iff)

lemma select_columns_Inl:
  "\<not> set cs \<subseteq> set (columns df) \<Longrightarrow> select_columns df cs = Inl KeyError"
  by (auto simp: select_columns_def list_all_iff)

lemma set_columns_set_column: "set (columns (set_column df c v)) = insert c (set (columns df))"
  by (auto simp: set_column_def)

lemma columns_filter_rows: "columns (filter_rows keep df) = columns df"
  by (simp add: filter_rows_def)

lemma set_columns_effective_dates:
  "set (columns (effective_dates df)) = insert ''Date effective'' (set (columns df))"
  by (simp add: effective_dates_def Let_def columns_filter_rows set_columns_set_column)

lemma set_columns_parse_dates:
  "set (columns (parse_dates parse df)) = insert ''Date effective'' (set (columns df))"
  by (simp add: parse_dates_def Let_def columns_filter_rows set_columns_set_column)

lemma needed_subset:
  assumes "Date_d_affectation \<in> set (columns df)" and "''Nom'' \<in> set (columns df)"
    and "''Phase du projet'' \<in> set (columns df)"
  shows "set (columns_needed df) \<subseteq> set (columns df)"
  using assms
  by (cases "Date_de_creation \<in> set (columns df)"; cases "Derniere_Note \<in> set (columns df)")
    (simp_all add: columns_needed_def)

lemma needed_not_subset:
  assumes "''Nom'' \<notin> set (columns df) \<or> ''Phase du projet'' \<notin> set (columns df)"
  shows "\<not> set (columns_needed df) \<subseteq> set (columns df)"
proof
  assume "set (columns_needed df) \<subseteq> set (columns df)"
  moreover have "''Nom'' \<in> set (columns_needed df)"
    and "''Phase du projet'' \<in> set (columns_needed df)"
    by (simp_all add: columns_needed_def)
  ultimately have "''Nom'' \<in> set (columns df) \<and> ''Phase du projet'' \<in> set (columns df)"
    by (simp only: subset_iff simp_thms)
  with assms show False by simp
qed

lemma sorted_projects_KeyError:
  assumes "''Nom'' \<notin> set (columns df) \<or> ''Phase du projet'' \<notin> set (columns df)"
  shows "sorted_projects parse df ph = Inl KeyError"
  by (simp add: sorted_projects_def Let_def select_columns_Inl [OF needed_not_subset [OF assms]])

lemma sorted_projects_returns:
  assumes "Date_d_affectation \<in> set (columns df)" and "''Nom'' \<in> set (columns df)"
    and "''Phase du projet'' \<in> set (columns df)" and "Derniere_Note \<in> set (columns df)"
  shows "\<exists>t. sorted_projects parse df ph = Inr t"
proof -
  let ?copy = "\<lparr>columns = columns_needed df, index = index df, rows = rows df\<rparr>"
  have sub: "set (columns_needed df) \<subseteq> set (columns df)"
    by (rule needed_subset [OF assms(1-3)])
  have note_in: "Derniere_Note \<in> set (columns_needed df)"
    using assms(4) by (simp add: columns_needed_def)
  have nom_in: "''Nom'' \<in> set (columns_needed df)"
    by (simp add: columns_needed_def)
  have last: "set [Annee, ''Nom'', Derniere_Note] \<subseteq> set (columns (set_column
      (parse_dates parse (effective_dates (filter_rows keep ?copy))) Annee v))" for keep v
    using note_in nom_in
    by (simp add: set_columns_set_column set_columns_parse_dates set_columns_effective_dates
        columns_filter_rows)
  show ?thesis
    unfolding sorted_projects_def Let_def select_columns_Inr [OF sub]
    by (simp add: select_columns_Inr [OF last] del: set_simps)
qed

text \<open>
  C4, as amended. When the column of the assignment date is absent,
  \<^verbatim>\<open>create_projects_by_month_summary\<close> returns the empty result with the four fixed
  columns. When that column is present and the column \<^verbatim>\<open>Nom\<close> or the column
  \<^verbatim>\<open>Phase du projet\<close> is absent, it raises \<^verbatim>\<open>KeyError\<close> (line 170). When these three
  columns and the column of the last note are present, it returns a table, whether the
  column of the creation date is present or not.
\<close>

theorem summary_absent_columns:
  "(Date_d_affectation \<notin> set (columns df)
      \<longrightarrow> create_projects_by_month_summary parse df phases = Inr empty_summary) \<and>
   (Date_d_affectation \<in> set (columns df) \<and>
    (''Nom'' \<notin> set (columns df) \<or> ''Phase du projet'' \<notin> set (columns df))
      \<longrightarrow> create_projects_by_month_summary parse df phases = Inl KeyError) \<and>
   (Date_d_affectation \<in> set (columns df) \<and> ''Nom'' \<in> set (columns df) \<and>
    ''Phase du projet'' \<in> set (columns df) \<and> Derniere_Note \<in> set (columns df)
      \<longrightarrow> (\<exists>out. create_projects_by_month_summary parse df phases = Inr out))"
proof (intro conjI impI)
  assume "Date_d_affectation \<notin> set (columns df)"
  then show "create_projects_by_month_summary parse df phases = Inr empty_summary"
    by (simp add: create_projects_by_month_summary_def)
next
  assume a: "Date_d_affectation \<in> set (columns df) \<and>
    (''Nom'' \<notin> set (columns df) \<or> ''Phase du projet'' \<notin> set (columns df))"
  then have "sorted_projects parse df phases = Inl KeyError"
    by (intro sorted_projects_KeyError) simp
  with a show "create_projects_by_month_summary parse df phases = Inl KeyError"
    by (simp add: create_projects_by_month_summary_def)
next
  assume a: "Date_d_affectation \<in> set (columns df) \<and> ''Nom'' \<in> set (columns df) \<and>
    ''Phase du projet'' \<in> set (columns df) \<and> Derniere_Note \<in> set (columns df)"
  then obtain t where "sorted_projects parse df phases = Inr t"
    using sorted_projects_returns [of df parse phases] by blast
  with a show "\<exists>out. create_projects_by_month_summary parse df phases = Inr out"
    by (cases t) (simp_all add: create_projects_by_month_summary_def)
qed

theorem summary_absent_columns_witness:
  "Date_d_affectation \<notin> set (columns nameless_example) \<and>
   create_projects_by_month_summary timestamps_only nameless_example None = Inr empty_summary \<and>
   Date_d_affectation \<in> set (columns unnamed_example) \<and>
   ''Nom'' \<notin> set (columns unnamed_example) \<and>
   create_projects_by_month_summary timestamps_only unnamed_example None = Inl KeyError \<and>
   Date_d_affectation \<in> set (columns deployments_example) \<and>
   ''Nom'' \<in> set (columns deployments_example) \<and>
   ''Phase du projet'' \<in> set (columns deployments_example) \<and>
   Derniere_Note \<in> set (columns deployments_example) \<and>
   (\<exists>out. create_projects_by_month_summary timestamps_only deployments_example None = Inr out)"
proof -
  have a: "Date_d_affectation \<notin> set (columns nameless_example)"
    by (simp add: nameless_example_def)
  have b: "Date_d_affectation \<in> set (columns unnamed_example) \<and>
      ''Nom'' \<notin> set (columns unnamed_example)"
    by (simp add: unnamed_example_def)
  have c: "Date_d_affectation \<in> set (columns deployments_example) \<and>
      ''Nom'' \<in> set (columns deployments_example) \<and>
      ''Phase du projet'' \<in> set (columns deployments_example) \<and>
      Derniere_Note \<in> set (columns deployments_example)"
    by (simp add: deployments_example_def)
  show ?thesis
    using summary_absent_columns [of nameless_example timestamps_only None]
      summary_absent_columns [of unnamed_example timestamps_only None]
      summary_absent_columns [of deployments_example timestamps_only None] a b c
    by simp
qed

text \<open>
  The claim C4 as the specification states it fails on the table without the column
  \<^verbatim>\<open>Nom\<close>: the assignment date is present, and the call raises \<^verbatim>\<open>KeyError\<close>.
\<close>

theorem summary_absent_name_counterexample:
  "Date_d_affectation \<in> set (columns unnamed_example) \<and>
   ''Nom'' \<notin> set (columns unnamed_example) \<and>
   create_projects_by_month_summary timestamps_only unnamed_example None = Inl KeyError"
  by (simp add: unnamed_example_def create_projects_by_month_summary_def sorted_projects_def
      select_columns_def columns_needed_def Let_def)

text \<open>
  C5. In the output of \<^verbatim>\<open>create_projects_by_month_summary\<close>, row \<open>i\<close> is the project of
  row \<open>i\<close> of the sorted table of the dated projects (\<open>sorted_projects\<close>). Whatever its
  position, when the year of that project is 2024 or 2025 its name and its last note are
  the empty string; otherwise they are the project's name and note.
\<close>

theorem summary_2024_2025_blank:
  assumes "create_projects_by_month_summary parse df phases = Inr out"
    and "i < length (rows out)"
  shows "\<exists>result_df. sorted_projects parse df phases = Inr (Some result_df) \<and>
     length (rows result_df) = length (rows out) \<and>
     (if (rows result_df ! i) Annee = Num 2024 \<or> (rows result_df ! i) Annee = Num 2025
      then (rows out ! i) ''Nom du projet'' = Str [] \<and> (rows out ! i) Derniere_Note = Str []
      else (rows out ! i) ''Nom du projet'' = (rows result_df ! i) ''Nom du projet'' \<and>
           (rows out ! i) Derniere_Note = (rows result_df ! i) Derniere_Note)"
proof -
  from summary_cases [OF assms] obtain t where
    t: "sorted_projects parse df phases = Inr (Some t)" and out: "out = finish_summary t"
    by blast
  have len: "length (rows t) = length (rows out)"
    by (simp add: out length_rows_finish)
  have i: "i < length (rows t)" using assms(2) len by simp
  have name: "(rows out ! i) ''Nom du projet'' = cleared (counted t (rows t ! i)) ''Nom du projet''"
    unfolding out by (rule finish_summary_other [OF i]) simp_all
  have last_note: "(rows out ! i) Derniere_Note = cleared (counted t (rows t ! i)) Derniere_Note"
    unfolding out by (rule finish_summary_other [OF i]) simp_all
  have "(if (rows t ! i) Annee = Num 2024 \<or> (rows t ! i) Annee = Num 2025
      then (rows out ! i) ''Nom du projet'' = Str [] \<and> (rows out ! i) Derniere_Note = Str []
      else (rows out ! i) ''Nom du projet'' = (rows t ! i) ''Nom du projet'' \<and>
           (rows out ! i) Derniere_Note = (rows t ! i) Derniere_Note)"
    unfolding name last_note
    by (simp add: cleared_def counted_def)
  with t len show ?thesis by blast
qed

lemma deployments_example_sorted:
  "\<exists>t. sorted_projects timestamps_only deployments_example None = Inr (Some t) \<and>
     map (\<lambda>r. (r Annee, r ''Nom du projet'', r Derniere_Note)) (rows t) =
       [(Num 2023, Str ''A'', Str ''n3''), (Num 2023, Str ''C'', Str ''n1''),
        (Num 2024, Str ''B'', Str ''n2'')]"
  by (simp add: sorted_projects_def select_columns_def columns_needed_def allowed_phases_of_def
      default_phases_def filter_rows_def effective_dates_def set_column_def parse_dates_def
      to_datetime_def timestamps_only_def rename_result_def sort_by_year_name_def isin_def
      isna_def deployments_example_def deployment_def Let_def)

lemma deployments_example_summary:
  obtains t where "sorted_projects timestamps_only deployments_example None = Inr (Some t)"
    and "create_projects_by_month_summary timestamps_only deployments_example None
          = Inr (finish_summary t)"
    and "length (rows t) = 3"
    and "(rows t ! 0) Annee = Num 2023" and "(rows t ! 1) Annee = Num 2023"
    and "(rows t ! 2) Annee = Num 2024"
    and "length (filter (\<lambda>r. r Annee = Num 2023) (rows t)) = 2"
proof -
  let ?f = "\<lambda>r::row. (r Annee, r ''Nom du projet'', r Derniere_Note)"
  let ?l = "[(Num 2023, Str ''A'', Str ''n3''), (Num 2023, Str ''C'', Str ''n1''),
        (Num 2024, Str ''B'', Str ''n2'')]"
  from deployments_example_sorted obtain t where
    tm: "sorted_projects timestamps_only deployments_example None = Inr (Some t) \<and>
      map ?f (rows t) = ?l" ..
  from tm have t: "sorted_projects timestamps_only deployments_example None = Inr (Some t)"
    by (rule conjunct1)
  from tm have m: "map ?f (rows t) = ?l"
    by (rule conjunct2)
  have len: "length (rows t) = 3"
    using arg_cong [OF m, of length] by simp
  have nth: "(rows t ! k) Annee = fst (?l ! k)" if "k < 3" for k
  proof -
    have "?f (rows t ! k) = map ?f (rows t) ! k" using that len by simp
    then show ?thesis unfolding m by (metis fst_conv)
  qed
  have "length (filter ((\<lambda>p. fst p = Num 2023) \<circ> ?f) (rows t))
      = length (filter (\<lambda>p. fst p = Num 2023) (map ?f (rows t)))"
    by (simp add: filter_map)
  then have cnt: "length (filter (\<lambda>r. r Annee = Num 2023) (rows t)) = 2"
    unfolding m by (simp add: comp_def)
  have c: "create_projects_by_month_summary timestamps_only deployments_example None
          = Inr (finish_summary t)"
    unfolding create_projects_by_month_summary_def t
    by (simp add: deployments_example_def)
  show thesis
    using that [OF t c len _ _ _ cnt] nth [of 0] nth [of 1] nth [of 2] by simp
qed

theorem summary_2024_2025_blank_witness:
  "\<exists>out result_df.
     create_projects_by_month_summary timestamps_only deployments_example None = Inr out \<and>
     2 < length (rows out) \<and>
     sorted_projects timestamps_only deployments_example None = Inr (Some result_df) \<and>
     (rows result_df ! 2) Annee = Num 2024 \<and>
     (rows out ! 2) ''Nom du projet'' = Str [] \<and> (rows out ! 2) Derniere_Note = Str []"
proof -
  from deployments_example_summary obtain t where
    t: "sorted_projects timestamps_only deployments_example None = Inr (Some t)"
    and c: "create_projects_by_month_summary timestamps_only deployments_example None
          = Inr (finish_summary t)"
    and len: "length (rows t) = 3" and y: "(rows t ! 2) Annee = Num 2024"
    by (rule deployments_example_summary)
  have i: "2 < length (rows (finish_summary t))"
    by (simp add: length_rows_finish len)
  from summary_2024_2025_blank [OF c i] t y
  have "(rows (finish_summary t) ! 2) ''Nom du projet'' = Str [] \<and>
      (rows (finish_summary t) ! 2) Derniere_Note = Str []"
    by auto
  with c i t y show ?thesis by blast
qed

subsection \<open>The first row of a year group\<close>

text \<open>
  On a table with a unique index, the loop of lines 214 to 220 does what its comment
  says. The sorted table of the dated projects is sorted by year, so that the rows of one
  year are next to each other. In the output, the first row of a year group (row 0, and
  every row whose year is not that of the row before) has the year and the number of
  rows of that year in the sorted table of the dated projects (the rows that passed the
  phase filter and have a date); every other row has the empty string in both columns.
\<close>

lemma summary_year_groups_unique_index:
  assumes "unique_index df"
    and "create_projects_by_month_summary parse df phases = Inr out"
    and "i < length (rows out)"
  shows "\<exists>result_df. sorted_projects parse df phases = Inr (Some result_df) \<and>
     length (rows result_df) = length (rows out) \<and>
     sorted (map (\<lambda>r. cell_key (r Annee)) (rows result_df)) \<and>
     (if 0 < i \<and> (rows result_df ! (i - 1)) Annee = (rows result_df ! i) Annee
      then (rows out ! i) Annee = Str [] \<and> (rows out ! i) ''Nombre de projets'' = Str []
      else (rows out ! i) Annee = (rows result_df ! i) Annee \<and>
           (rows out ! i) ''Nombre de projets'' =
             Num (of_nat (length (filter (\<lambda>r. r Annee = (rows result_df ! i) Annee)
                                    (rows result_df)))))"
proof -
  from summary_cases [OF assms(2,3)] obtain t where
    t: "sorted_projects parse df phases = Inr (Some t)" and out: "out = finish_summary t"
    by blast
  have u: "unique_index t"
    by (rule sorted_projects_unique_index [OF assms(1) t])
  have len: "length (rows t) = length (rows out)"
    by (simp add: out length_rows_finish)
  have num: "\<forall>r\<in>set (rows t). \<exists>y. r Annee = Num (of_int y)"
    by (rule sorted_projects_years [OF t])
  then have ne: "\<forall>r\<in>set (rows t). r Annee \<noteq> Str []" by auto
  have srt: "sorted (map (\<lambda>r. cell_key (r Annee)) (rows t))"
    by (rule sorted_projects_sorted [OF t])
  have i: "i < length (rows t)" using assms(3) len by simp
  have "(if 0 < i \<and> (rows t ! (i - 1)) Annee = (rows t ! i) Annee
      then (rows out ! i) Annee = Str [] \<and> (rows out ! i) ''Nombre de projets'' = Str []
      else (rows out ! i) Annee = (rows t ! i) Annee \<and>
           (rows out ! i) ''Nombre de projets'' =
             Num (of_nat (length (filter (\<lambda>r. r Annee = (rows t ! i) Annee) (rows t)))))"
    unfolding out finish_summary_nth [OF u ne i] first_of_group_iff [OF num srt i]
    by (simp add: clear_cells_def cleared_def counted_def)
  with t len srt show ?thesis by blast
qed

lemma summary_year_groups_unique_index_example:
  "unique_index deployments_example \<and>
   (\<exists>out result_df.
     create_projects_by_month_summary timestamps_only deployments_example None = Inr out \<and>
     1 < length (rows out) \<and> length (rows deployments_example) = 4 \<and>
     sorted_projects timestamps_only deployments_example None = Inr (Some result_df) \<and>
     (rows out ! 0) Annee = Num 2023 \<and> (rows out ! 0) ''Nombre de projets'' = Num 2 \<and>
     (rows out ! 1) Annee = Str [] \<and> (rows out ! 1) ''Nombre de projets'' = Str [])"
proof -
  from deployments_example_summary obtain t where
    t: "sorted_projects timestamps_only deployments_example None = Inr (Some t)"
    and c: "create_projects_by_month_summary timestamps_only deployments_example None
          = Inr (finish_summary t)"
    and len: "length (rows t) = 3"
    and y: "(rows t ! 0) Annee = Num 2023" "(rows t ! 1) Annee = Num 2023"
      "(rows t ! 2) Annee = Num 2024"
    and cnt: "length (filter (\<lambda>r. r Annee = Num 2023) (rows t)) = 2"
    by (rule deployments_example_summary)
  have u: "unique_index deployments_example"
    by (simp add: unique_index_def deployments_example_def)
  have i: "0 < length (rows (finish_summary t))" "1 < length (rows (finish_summary t))"
    by (simp_all add: length_rows_finish len)
  from summary_year_groups_unique_index [OF u c i(1)] t y cnt
  have r0: "(rows (finish_summary t) ! 0) Annee = Num 2023 \<and>
      (rows (finish_summary t) ! 0) ''Nombre de projets'' = Num 2"
    by auto
  from summary_year_groups_unique_index [OF u c i(2)] t y
  have r1: "(rows (finish_summary t) ! 1) Annee = Str [] \<and>
      (rows (finish_summary t) ! 1) ''Nombre de projets'' = Str []"
    by auto
  have "length (rows deployments_example) = 4"
    by (simp add: deployments_example_def)
  with u c i t r0 r1 show ?thesis by blast
qed

text \<open>
  C6. The claim is what the docstring (\<^verbatim>\<open>Year appears only once per year group, with a
  count column\<close>) and the comment of line 218 (\<^verbatim>\<open>Keep first row with year and count, clear
  others\<close>) say, and the code does it on every table with a unique index (the lemma
  \<open>summary_year_groups_unique_index\<close>). It does not on a table in which a label occurs
  twice: line 216 takes the labels of the rows of a year, and lines 219 and 220 clear every
  row that has one of these labels but the first, a first row of a year group included.
  On the table \<open>repeated_index_example\<close> the sorted projects have the years 2022, 2023 and
  2023, so that rows 0 and 1 are the first rows of their year groups, with the counts 1
  and 2; the output has the empty string as the year and as the count of all three rows.
  The same rows with the labels 0, 1 and 2 give the years and counts of the claim.
\<close>

theorem summary_repeated_index_clears_first_rows:
  "index repeated_index_example = [Num 0, Num 0, Num 0] \<and>
   sorted_years (sorted_projects timestamps_only repeated_index_example None)
     = [Num 2022, Num 2023, Num 2023] \<and>
   years_and_counts
     (create_projects_by_month_summary timestamps_only repeated_index_example None)
     = [(Str [], Str []), (Str [], Str []), (Str [], Str [])] \<and>
   years_and_counts
     (create_projects_by_month_summary timestamps_only
        (repeated_index_example\<lparr>index := [Num 0, Num 1, Num 2]\<rparr>) None)
     = [(Num 2022, Num 1), (Num 2023, Num 2), (Str [], Str [])]"
proof -
  note defs = create_projects_by_month_summary_def sorted_projects_def select_columns_def
    columns_needed_def allowed_phases_of_def default_phases_def filter_rows_def
    effective_dates_def set_column_def parse_dates_def to_datetime_def timestamps_only_def
    rename_result_def sort_by_year_name_def isin_def isna_def deployment_def Let_def
    finish_summary_def add_counts_def clear_2024_2025_def clear_repeated_years_def
    clear_year_def clear_cells_def reorder_columns_def unique_def years_and_counts_def
    sorted_years_def repeated_index_example_def upt_conv_Cons
  have a: "index repeated_index_example = [Num 0, Num 0, Num 0]"
    by (simp add: repeated_index_example_def)
  have b: "sorted_years (sorted_projects timestamps_only repeated_index_example None)
      = [Num 2022, Num 2023, Num 2023]"
    by (simp add: defs)
  have c: "years_and_counts
      (create_projects_by_month_summary timestamps_only repeated_index_example None)
      = [(Str [], Str []), (Str [], Str []), (Str [], Str [])]"
    by (simp add: defs)
  have d: "years_and_counts
      (create_projects_by_month_summary timestamps_only
        (repeated_index_example\<lparr>index := [Num 0, Num 1, Num 2]\<rparr>) None)
      = [(Num 2022, Num 1), (Num 2023, Num 2), (Str [], Str [])]"
    by (simp add: defs)
  from a b c d show ?thesis by (intro conjI)
qed

section \<open>Properties of the hierarchical summary builder\<close>

subsection \<open>Sorted lists and their groups\<close>

lemma sorted_filter_takeWhile:
  assumes "sorted (map f xs)" and "\<forall>x\<in>set xs. k \<le> f x"
  shows "filter (\<lambda>x. f x = k) xs = takeWhile (\<lambda>x. f x = k) xs"
    and "\<forall>x\<in>set (dropWhile (\<lambda>x. f x = k) xs). k < f x"
  using assms
proof (induction xs)
  case Nil
  { case 1 show ?case by simp }
  { case 2 show ?case by simp }
next
  case (Cons x xs)
  { case 1
    show ?case
    proof (cases "f x = k")
      case True
      with Cons.IH(1) "1" show ?thesis by simp
    next
      case False
      with "1" have "k < f x" by auto
      with "1" have "\<forall>y\<in>set xs. f y \<noteq> k" by fastforce
      with False show ?thesis by simp
    qed }
  { case 2
    show ?case
    proof (cases "f x = k")
      case True
      with Cons.IH(2) "2" show ?thesis by simp
    next
      case False
      with "2" have "k < f x" by auto
      with "2" have "\<forall>y\<in>set xs. k < f y" by fastforce
      with False \<open>k < f x\<close> show ?thesis by simp
    qed }
qed


subsection \<open>The builder on a sorted pivot table\<close>

lemma second_pass_same:
  "\<forall>x\<in>set g. Ressource x = k \<Longrightarrow>
   second_pass R cd pd pv (Some k) g = map (project_row R cd pd) g"
  by (induction g) simp_all

lemma second_pass_group:
  assumes "\<forall>x\<in>set g. Ressource x = k" and "g \<noteq> []" and "cur \<noteq> Some k"
  shows "second_pass R cd pd pv cur g = resource_row pv k # map (project_row R cd pd) g"
proof (cases g)
  case Nil
  with assms(2) show ?thesis by simp
next
  case (Cons x xs)
  with assms(1) have "Ressource x = k" and "\<forall>y\<in>set xs. Ressource y = k" by simp_all
  with Cons assms(3) show ?thesis
    by (auto simp: second_pass_same)
qed

lemma second_pass_append:
  "second_pass R cd pd pv cur (as @ bs) =
   second_pass R cd pd pv cur as
   @ second_pass R cd pd pv (if as = [] then cur else Some (Ressource (last as))) bs"
proof (induction as arbitrary: cur)
  case Nil
  show ?case by simp
next
  case (Cons a as)
  show ?case
    by (cases "as = []") (simp_all add: Cons.IH Let_def)
qed

lemma second_pass_groups:
  assumes "sorted ks" and "distinct ks" and "set ks = Ressource ` set xs"
    and "sorted (map Ressource xs)" and "cur \<notin> Some ` set ks"
  shows "second_pass R cd pd pv cur xs = concat (map (summary_group R cd pd pv xs) ks)"
  using assms
proof (induction ks arbitrary: xs cur)
  case Nil
  then show ?case by simp
next
  case (Cons k ks)
  let ?tk = "takeWhile (\<lambda>x. Ressource x = k) xs"
  let ?dr = "dropWhile (\<lambda>x. Ressource x = k) xs"
  have least: "\<forall>x\<in>set xs. k \<le> Ressource x"
  proof
    fix x assume "x \<in> set xs"
    then have "Ressource x \<in> set (k # ks)" using Cons.prems(3) by blast
    with Cons.prems(1) show "k \<le> Ressource x" by auto
  qed
  have tk: "filter (\<lambda>x. Ressource x = k) xs = ?tk"
    and dr: "\<forall>x\<in>set ?dr. k < Ressource x"
    using sorted_filter_takeWhile [OF Cons.prems(4) least] by blast+
  have xs: "xs = ?tk @ ?dr" by simp
  have "k \<in> Ressource ` set xs" using Cons.prems(3) by auto
  then have ne: "?tk \<noteq> []" unfolding tk [symmetric] by (auto simp: filter_empty_conv)
  have all_k: "\<forall>x\<in>set ?tk. Ressource x = k"
    unfolding tk [symmetric] by simp
  then have last_k: "Ressource (last ?tk) = k" using ne last_in_set by blast
  have cur: "cur \<noteq> Some k" using Cons.prems(5) by auto
  have set_dr: "set ks = Ressource ` set ?dr"
  proof -
    have "Ressource ` set xs = insert k (Ressource ` set ?dr)"
    proof -
      have "set xs = set ?tk \<union> set ?dr" by (subst xs) (simp only: set_append)
      moreover have "Ressource ` set ?tk = {k}" using all_k ne by (cases ?tk) auto
      ultimately show ?thesis by (simp add: image_Un)
    qed
    moreover have "k \<notin> Ressource ` set ?dr" using dr by auto
    moreover have "k \<notin> set ks" using Cons.prems(2) by simp
    ultimately show ?thesis using Cons.prems(3) by auto
  qed
  have sorted_dr: "sorted (map Ressource ?dr)"
    using Cons.prems(4) by (subst (asm) xs) (simp only: map_append sorted_append)
  have cur': "Some k \<notin> Some ` set ks" using Cons.prems(2) by auto
  have IH: "second_pass R cd pd pv (Some k) ?dr = concat (map (summary_group R cd pd pv ?dr) ks)"
    using Cons.IH [OF _ _ set_dr sorted_dr cur'] Cons.prems(1,2) by simp
  have groups: "map (summary_group R cd pd pv ?dr) ks = map (summary_group R cd pd pv xs) ks"
  proof (rule map_cong [OF refl])
    fix k' assume "k' \<in> set ks"
    then have "k' \<noteq> k" using Cons.prems(2) by auto
    then have "filter (\<lambda>x. Ressource x = k') ?tk = []"
      using all_k by (auto simp: filter_empty_conv)
    then have "filter (\<lambda>x. Ressource x = k') xs = filter (\<lambda>x. Ressource x = k') ?dr"
      by (subst xs) (simp only: filter_append append_Nil)
    then show "summary_group R cd pd pv ?dr k' = summary_group R cd pd pv xs k'"
      by (simp add: summary_group_def)
  qed
  have "second_pass R cd pd pv cur xs =
      second_pass R cd pd pv cur ?tk @ second_pass R cd pd pv (Some k) ?dr"
    using second_pass_append [of R cd pd pv cur ?tk ?dr] ne last_k by simp
  also have "second_pass R cd pd pv cur ?tk = resource_row pv k # map (project_row R cd pd) ?tk"
    by (rule second_pass_group [OF all_k ne cur])
  also have "\<dots> = summary_group R cd pd pv xs k"
    by (simp add: summary_group_def tk)
  finally show ?case
    by (simp add: IH groups)
qed

lemma sorted_Ressource_sort_values: "sorted (map Ressource (sort_values pivot_df))"
proof -
  have "sorted (map (\<lambda>row. (Ressource row, Projet row)) (sort_values pivot_df))"
    by (simp add: sort_values_def)
  then show ?thesis by (rule sorted_fst_key)
qed

lemma set_sort_values: "set (sort_values pivot_df) = set pivot_df"
  by (simp add: sort_values_def)

lemma format_resource_summary_groups:
  "format_resource_summary R pivot_df cd pd md =
     concat (map (summary_group R cd pd (sort_values pivot_df) (sort_values pivot_df))
       (sorted_list_of_set (Ressource ` set pivot_df)))"
proof -
  let ?ks = "sorted_list_of_set (Ressource ` set pivot_df)"
  have "second_pass R cd pd (sort_values pivot_df) None (sort_values pivot_df) =
      concat (map (summary_group R cd pd (sort_values pivot_df) (sort_values pivot_df)) ?ks)"
    by (rule second_pass_groups) (simp_all add: set_sort_values sorted_Ressource_sort_values)
  then show ?thesis by (simp add: format_resource_summary_def Let_def)
qed

subsection \<open>Rows of the summary\<close>

lemma resource_row_simps:
  "Resource_PROJET (resource_row pv k) = Some k"
  "Somme_de_Charge_JH (resource_row pv k) = Some (resource_charge pv k)"
  "Charge_Theorique (resource_row pv k) = None"
  "Ecart (resource_row pv k) = None"
  by (simp_all add: resource_row_def empty_row_def)

lemma project_row_simps:
  "Resource_PROJET (project_row R cd pd row) = Some (''    '' @ Projet row)"
  "Somme_de_Charge_JH (project_row R cd pd row) = None"
  "Charge_JH_cell (project_row R cd pd row) = Charge_JH row"
  "Charge_Theorique (project_row R cd pd row) = resolve_charge R cd pd (Projet row)"
  "Ecart (project_row R cd pd row) =
     (case resolve_charge R cd pd (Projet row) of
        None \<Rightarrow> None | Some t \<Rightarrow> minus_charge t (Charge_JH row))"
  by (simp_all add: project_row_def empty_row_def Let_def split: option.split)

lemma ecart_ok_rows:
  "ecart_ok (resource_row pv k)" "ecart_ok (project_row R cd pd row)"
  by (simp_all add: ecart_ok_def resource_row_simps project_row_simps minus_charge_def
      split: option.split)

lemma second_pass_ecart_ok: "list_all ecart_ok (second_pass R cd pd pv cur xs)"
  by (induction xs arbitrary: cur) (simp_all add: ecart_ok_rows Let_def)

lemma second_pass_project_rows:
  "filter (\<lambda>r. Somme_de_Charge_JH r = None) (second_pass R cd pd pv cur xs)
     = map (project_row R cd pd) xs"
  by (induction xs arbitrary: cur) (simp_all add: resource_row_simps project_row_simps Let_def)

lemma groups_resource_rows:
  "filter (\<lambda>r. Somme_de_Charge_JH r \<noteq> None) (concat (map (summary_group R cd pd pv xs) ks))
     = map (resource_row pv) ks"
proof (induction ks)
  case Nil
  show ?case by simp
next
  case (Cons k ks)
  have "filter (\<lambda>r. Somme_de_Charge_JH r \<noteq> None) (map (project_row R cd pd) ys) = []" for ys
    by (induction ys) (simp_all add: project_row_simps)
  with Cons show ?case
    by (simp add: summary_group_def resource_row_simps)
qed

lemma sorted_snd_group:
  "sorted (map (\<lambda>x. (f x, g x)) xs) \<Longrightarrow> sorted (map g (filter (\<lambda>x. f x = k) xs))"
  by (induction xs) (auto simp: less_eq_prod_def)

text \<open>
  C2. The output of \<^verbatim>\<open>format_resource_summary\<close> is, for each distinct resource of the
  pivot table in ascending order, the row of the resource followed by the rows of its
  projects in ascending order of the project. The rows of the projects (the rows without
  a total) are the rows of the sorted pivot table, one for one; the rows of the
  resources (the rows with a total) are as many as the distinct resources. (The names
  of the resources and of the projects are strings, as the data model has them.) In every row,
  the \<^verbatim>\<open>Ecart\<close> is missing when the theoretical charge is, and is the theoretical charge
  minus the \<^verbatim>\<open>Charge JH\<close> of the row otherwise (missing when that charge is).
\<close>

theorem format_resource_summary_rows:
  "(let sorted_df = sort_values pivot_df;
        out = format_resource_summary rules pivot_df connection_dict phase_dict montant_dict
    in out = concat (map (\<lambda>resource.
                 resource_row sorted_df resource
                 # map (project_row rules connection_dict phase_dict)
                     (filter (\<lambda>row. Ressource row = resource) sorted_df))
               (sorted_list_of_set (Ressource ` set pivot_df)))
       \<and> sorted (map (\<lambda>row. (Ressource row, Projet row)) sorted_df)
       \<and> filter (\<lambda>r. Somme_de_Charge_JH r = None) out
           = map (project_row rules connection_dict phase_dict) sorted_df
       \<and> length (filter (\<lambda>r. Somme_de_Charge_JH r = None) out) = length pivot_df
       \<and> length (filter (\<lambda>r. Somme_de_Charge_JH r \<noteq> None) out)
           = card (Ressource ` set pivot_df)
       \<and> list_all (\<lambda>r. Ecart r =
             (case Charge_Theorique r of
                None \<Rightarrow> None
              | Some t \<Rightarrow> (case Charge_JH_cell r of
                             None \<Rightarrow> None
                           | Some c \<Rightarrow> Some (t - c)))) out)"
proof -
  let ?s = "sort_values pivot_df"
  let ?out = "format_resource_summary rules pivot_df connection_dict phase_dict montant_dict"
  let ?ks = "sorted_list_of_set (Ressource ` set pivot_df)"
  have groups: "?out = concat (map (summary_group rules connection_dict phase_dict ?s ?s) ?ks)"
    by (rule format_resource_summary_groups)
  have a: "?out = concat (map (\<lambda>resource.
                 resource_row ?s resource
                 # map (project_row rules connection_dict phase_dict)
                     (filter (\<lambda>row. Ressource row = resource) ?s)) ?ks)"
    using groups unfolding summary_group_def .
  have b: "sorted (map (\<lambda>row. (Ressource row, Projet row)) ?s)"
    by (simp add: sort_values_def)
  have out: "?out = second_pass rules connection_dict phase_dict ?s None ?s"
    by (simp add: format_resource_summary_def Let_def)
  have c: "filter (\<lambda>r. Somme_de_Charge_JH r = None) ?out
      = map (project_row rules connection_dict phase_dict) ?s"
    unfolding out by (rule second_pass_project_rows)
  have d: "length (filter (\<lambda>r. Somme_de_Charge_JH r = None) ?out) = length pivot_df"
    unfolding c by (simp add: sort_values_def)
  have "length (filter (\<lambda>r. Somme_de_Charge_JH r \<noteq> None) ?out) = length ?ks"
    unfolding groups groups_resource_rows by simp
  then have e: "length (filter (\<lambda>r. Somme_de_Charge_JH r \<noteq> None) ?out)
      = card (Ressource ` set pivot_df)"
    by simp
  have "list_all ecart_ok ?out"
    unfolding out by (rule second_pass_ecart_ok)
  then have f: "list_all (\<lambda>r. Ecart r =
             (case Charge_Theorique r of
                None \<Rightarrow> None
              | Some t \<Rightarrow> (case Charge_JH_cell r of
                             None \<Rightarrow> None
                           | Some c \<Rightarrow> Some (t - c)))) ?out"
    unfolding ecart_ok_def .
  from a b c d e f show ?thesis unfolding Let_def by blast
qed

section \<open>Properties of the reverse aggregator\<close>

subsection \<open>Strings\<close>

lemma indented_prefix: "indented (''    '' @ p)"
  by (simp add: indented_def)

lemma indented_Cons: "indented (CHR '' '' # CHR '' '' # CHR '' '' # CHR '' '' # p)"
  by (simp add: indented_def)

lemma is_space_blank: "is_space CHR '' ''"
  by (simp add: is_space_def)

lemma length_py_strip: "length (py_strip s) \<le> length (dropWhile is_space s)"
proof -
  have "length (py_strip s) = length (dropWhile is_space (rev (dropWhile is_space s)))"
    by (simp add: py_strip_def)
  also have "\<dots> \<le> length (rev (dropWhile is_space s))"
    by (rule length_dropWhile_le)
  finally show ?thesis by simp
qed

lemma clean_hd:
  assumes "py_strip k = k" and "k \<noteq> []"
  shows "\<not> is_space (hd k)"
proof
  assume sp: "is_space (hd k)"
  from assms(2) obtain c cs where k: "k = c # cs" by (cases k) auto
  with sp have "dropWhile is_space k = dropWhile is_space cs" by simp
  then have "length (dropWhile is_space k) \<le> length cs"
    by (simp add: length_dropWhile_le)
  with length_py_strip [of k] have "length (py_strip k) < length k"
    using k by simp
  with assms(1) show False by simp
qed

lemma clean_not_indented:
  assumes "py_strip k = k" and "k \<noteq> []"
  shows "\<not> indented k"
proof
  assume "indented k"
  then have "take 4 k = ''    ''" by (simp add: indented_def)
  then have "hd k = CHR '' ''" by (cases k) (simp_all add: take_Cons')
  with clean_hd [OF assms] is_space_blank show False by simp
qed

subsection \<open>The aggregator on the groups of the builder\<close>

lemma aggregate_loop_project_rows:
  "aggregate_loop (map (project_row R cd pd) g @ rest) (acc, Some k, ps, cs) =
   aggregate_loop rest
     (acc, Some k, ps @ map project_name g,
      cs @ map (\<lambda>row. Charge_Theorique (project_row R cd pd row)) g)"
proof (induction g arbitrary: ps cs)
  case Nil
  show ?case by simp
next
  case (Cons x g)
  have "aggregate_loop (map (project_row R cd pd) (x # g) @ rest) (acc, Some k, ps, cs) =
      aggregate_loop (map (project_row R cd pd) g @ rest)
        (acc, Some k, ps @ [project_name x], cs @ [Charge_Theorique (project_row R cd pd x)])"
    by (simp add: project_row_simps(1) indented_Cons project_name_def Let_def row_text_def)
  then show ?case by (simp add: Cons.IH)
qed

lemma aggregate_loop_group:
  assumes "py_strip k = k" and "k \<noteq> []"
  shows "aggregate_loop (summary_group R cd pd pv xs k @ rest) (acc, cur, ps, cs) =
     aggregate_loop rest
       (acc @ (case cur of None \<Rightarrow> [] | Some c \<Rightarrow> [flush c ps cs]), Some k,
        map project_name (filter (\<lambda>row. Ressource row = k) xs),
        map (\<lambda>row. Charge_Theorique (project_row R cd pd row))
          (filter (\<lambda>row. Ressource row = k) xs))"
proof -
  have "aggregate_loop (summary_group R cd pd pv xs k @ rest) (acc, cur, ps, cs) =
      aggregate_loop (map (project_row R cd pd) (filter (\<lambda>row. Ressource row = k) xs) @ rest)
        (acc @ (case cur of None \<Rightarrow> [] | Some c \<Rightarrow> [flush c ps cs]), Some k, [], [])"
    using assms clean_not_indented [OF assms]
    by (cases cur) (simp_all add: summary_group_def resource_row_simps(1) row_text_def)
  then show ?thesis by (simp add: aggregate_loop_project_rows)
qed

lemma final_flush_groups:
  assumes "\<forall>k\<in>set ks. py_strip k = k \<and> k \<noteq> []"
  shows "final_flush (aggregate_loop (concat (map (summary_group R cd pd pv xs) ks))
            (acc, cur, ps, cs)) =
     acc @ (case cur of None \<Rightarrow> [] | Some c \<Rightarrow> [flush c ps cs])
     @ map (resource_total_of R cd pd xs) ks"
  using assms
proof (induction ks arbitrary: acc cur ps cs)
  case Nil
  show ?case by (cases cur) (simp_all add: final_flush_def)
next
  case (Cons k ks)
  from Cons.prems have k: "py_strip k = k" "k \<noteq> []"
    and ks: "\<forall>k\<in>set ks. py_strip k = k \<and> k \<noteq> []" by simp_all
  show ?case
    using aggregate_loop_group [OF k, of R cd pd pv xs "concat (map (summary_group R cd pd pv xs) ks)"
        acc cur ps cs]
    by (simp add: Cons.IH [OF ks] resource_total_of_def Let_def)
qed

lemma sort_descending_Nil: "sort_descending [] = []"
  by (simp add: sort_descending_def)

lemma sort_descending_single: "sort_descending [x] = [x]"
  by (simp add: sort_descending_def)

lemma filter_sort_descending:
  "filter P (sort_descending xs) = sort_descending (filter P xs)"
  by (simp add: sort_descending_def filter_sort rev_filter [symmetric])

lemma length_sort_descending: "length (sort_descending xs) = length xs"
  by (simp add: sort_descending_def)

lemma format_resource_summary_Nil:
  "format_resource_summary R pivot_df cd pd md = [] \<longleftrightarrow> pivot_df = []"
proof -
  have "second_pass R cd pd pv cur xs = [] \<longleftrightarrow> xs = []" for pv cur xs
    by (cases xs) (simp_all add: Let_def)
  moreover have "sort_values pivot_df = [] \<longleftrightarrow> pivot_df = []"
    unfolding sort_values_def by (metis length_0_conv length_sort)
  ultimately show ?thesis
    by (simp add: format_resource_summary_def Let_def)
qed

lemma round_trip_totals:
  assumes "\<forall>row\<in>set pivot_df. py_strip (Ressource row) = Ressource row \<and> Ressource row \<noteq> []"
  shows "create_theoretical_charge_by_resource_from_summary
           (format_resource_summary R pivot_df cd pd md) =
         sort_descending (map (resource_total_of R cd pd (sort_values pivot_df))
           (sorted_list_of_set (Ressource ` set pivot_df)))"
proof (cases "pivot_df = []")
  case True
  then show ?thesis
    by (simp add: create_theoretical_charge_by_resource_from_summary_def
        format_resource_summary_Nil sort_descending_Nil)
next
  case False
  let ?ks = "sorted_list_of_set (Ressource ` set pivot_df)"
  let ?s = "sort_values pivot_df"
  have clean: "\<forall>k\<in>set ?ks. py_strip k = k \<and> k \<noteq> []"
    using assms by auto
  have "final_flush (aggregate_loop (format_resource_summary R pivot_df cd pd md) ([], None, [], []))
      = map (resource_total_of R cd pd ?s) ?ks"
    unfolding format_resource_summary_groups
    using final_flush_groups [OF clean, of R cd pd ?s ?s "[]" None "[]" "[]"] by simp
  then show ?thesis
    using False
    by (simp add: create_theoretical_charge_by_resource_from_summary_def
        format_resource_summary_Nil Let_def sort_descending_Nil)
qed

subsection \<open>Sums do not depend on the order of the rows\<close>

lemma theoretical_sum_values: "theoretical_sum cs = sum_list (map charge_value cs)"
  by (induction cs) (auto simp: theoretical_sum_def charge_value_def)

lemma sum_list_insort_key:
  "sum_list (map h (insort_key f x xs)) = h x + sum_list (map h xs)"
  for h :: "'a \<Rightarrow> rat"
  by (induction xs) simp_all

lemma sum_list_sort_key:
  "sum_list (map h (sort_key f xs)) = sum_list (map h xs)"
  for h :: "'a \<Rightarrow> rat"
  by (induction xs) (simp_all add: sum_list_insort_key)

lemma theoretical_sum_sort_key:
  "theoretical_sum (map g (sort_key f xs)) = theoretical_sum (map g xs)"
  using sum_list_sort_key [of "charge_value \<circ> g" f xs]
  by (simp add: theoretical_sum_values comp_def)

lemma resource_total_of_sort_values:
  "resource_total_of R cd pd (sort_values pivot_df) r =
     \<lparr>Ressource_cell = r,
      Somme_Charge_Theorique =
        theoretical_sum (map (\<lambda>row. Charge_Theorique (project_row R cd pd row))
          (filter (\<lambda>row. Ressource row = r) pivot_df)),
      Nombre_de_projets = length (filter (\<lambda>row. Ressource row = r) pivot_df)\<rparr>"
  by (simp add: resource_total_of_def Let_def flush_def sort_values_def filter_sort
      theoretical_sum_sort_key)

lemma filter_map_distinct:
  assumes "distinct ks" and "r \<in> set ks" and "\<And>k. name (f k) = k"
  shows "filter (\<lambda>t. name t = r) (map f ks) = [f r]"
  using assms(1,2)
proof (induction ks)
  case Nil
  then show ?case by simp
next
  case (Cons k ks)
  show ?case
  proof (cases "k = r")
    case True
    with Cons.prems have "r \<notin> set ks" by simp
    then have "filter (\<lambda>t. name t = r) (map f ks) = []"
      by (auto simp: filter_empty_conv assms(3))
    with True show ?thesis by (simp add: assms(3))
  next
    case False
    with Cons show ?thesis by (simp add: assms(3))
  qed
qed

lemma resource_total_of_name: "Ressource_cell (resource_total_of R cd pd xs k) = k"
  by (simp add: resource_total_of_def Let_def flush_def)

text \<open>
  C1, as amended. For every pivot table whose resource names are not empty and have no
  white space at either end, the reverse aggregator applied to the output of the builder
  has one row for each resource of the pivot table and no other row; the row of a
  resource has the number of the rows of that resource in the pivot table, and the sum
  of the theoretical charges that the builder wrote in the project rows of that resource
  and that are neither missing nor zero.
\<close>

theorem round_trip_per_resource:
  assumes "\<forall>row\<in>set pivot_df. py_strip (Ressource row) = Ressource row \<and> Ressource row \<noteq> []"
    and "resource \<in> Ressource ` set pivot_df"
  shows "(let totals = create_theoretical_charge_by_resource_from_summary
                  (format_resource_summary rules pivot_df connection_dict phase_dict montant_dict);
              project_rows = filter (\<lambda>row. Ressource row = resource) pivot_df
          in filter (\<lambda>t. Ressource_cell t = resource) totals =
               [\<lparr>Ressource_cell = resource,
                 Somme_Charge_Theorique =
                   theoretical_sum
                     (map (\<lambda>row. Charge_Theorique (project_row rules connection_dict phase_dict row))
                        project_rows),
                 Nombre_de_projets = length project_rows\<rparr>]
             \<and> length totals = card (Ressource ` set pivot_df))"
proof -
  let ?ks = "sorted_list_of_set (Ressource ` set pivot_df)"
  let ?f = "resource_total_of rules connection_dict phase_dict (sort_values pivot_df)"
  have totals: "create_theoretical_charge_by_resource_from_summary
      (format_resource_summary rules pivot_df connection_dict phase_dict montant_dict)
      = sort_descending (map ?f ?ks)"
    by (rule round_trip_totals [OF assms(1)])
  have "filter (\<lambda>t. Ressource_cell t = resource) (map ?f ?ks) = [?f resource]"
    by (rule filter_map_distinct) (use assms(2) in \<open>simp_all add: resource_total_of_name\<close>)
  then have one: "filter (\<lambda>t. Ressource_cell t = resource) (sort_descending (map ?f ?ks))
      = [?f resource]"
    by (simp add: filter_sort_descending sort_descending_single)
  have len: "length (sort_descending (map ?f ?ks)) = card (Ressource ` set pivot_df)"
    by (simp add: length_sort_descending)
  show ?thesis
    unfolding Let_def totals one len resource_total_of_sort_values by simp
qed

lemma py_strip_names: "py_strip ''Bob'' = ''Bob''" "py_strip ''Alice'' = ''Alice''"
  by (simp_all add: py_strip_def is_space_def)

theorem round_trip_per_resource_witness:
  "py_strip ''Bob'' = ''Bob'' \<and> py_strip ''Alice'' = ''Alice'' \<and>
   map Ressource pivot_example = [''Bob'', ''Alice'', ''Bob''] \<and>
   filter (\<lambda>t. Ressource_cell t = ''Bob'')
     (create_theoretical_charge_by_resource_from_summary
        (format_resource_summary rules_example pivot_example connections_example
           phases_example Map.empty)) =
     [\<lparr>Ressource_cell = ''Bob'', Somme_Charge_Theorique = 5, Nombre_de_projets = 2\<rparr>]"
proof -
  have names: "map Ressource pivot_example = [''Bob'', ''Alice'', ''Bob'']"
    by (simp add: pivot_example_def allocation_def)
  have clean: "\<forall>row\<in>set pivot_example.
      py_strip (Ressource row) = Ressource row \<and> Ressource row \<noteq> []"
    by (simp add: pivot_example_def allocation_def py_strip_names)
  have mem: "''Bob'' \<in> Ressource ` set pivot_example"
    by (simp add: pivot_example_def allocation_def)
  have rows: "filter (\<lambda>row. Ressource row = ''Bob'') pivot_example
      = [allocation ''Bob'' ''P2'' 2, allocation ''Bob'' ''P1'' 4]"
    by (simp add: pivot_example_def allocation_def)
  have charges: "map (\<lambda>row. Charge_Theorique (project_row rules_example connections_example
        phases_example row)) [allocation ''Bob'' ''P2'' 2, allocation ''Bob'' ''P1'' 4]
      = [Some 0, Some 5]"
    by (simp add: project_row_simps resolve_charge_def dict_get_def connections_example_def
        phases_example_def calculate_theoretical_charge_def normalize_connection_level_def
        normalize_project_phase_def mapping_get_def connection_mapping_def phase_mapping_def
        rules_example_def allocation_def Let_def)
  have "theoretical_sum [Some 0, Some 5] = 5"
    by (simp add: theoretical_sum_def)
  with round_trip_per_resource [OF clean mem, of rules_example connections_example
      phases_example Map.empty] names py_strip_names
  show ?thesis
    unfolding Let_def rows charges by simp
qed

text \<open>
  The claim C1 as the specification states it fails on a pivot table with a resource
  whose name is white space: the row of that resource is no resource row for the
  aggregator, and its project is counted with the resource before. \<open>Alice\<close> has one row
  in the pivot table and two projects in the result.
\<close>

theorem round_trip_blank_resource_counterexample:
  "length (filter (\<lambda>row. Ressource row = ''Alice'') blank_resource_example) = 1 \<and>
   create_theoretical_charge_by_resource_from_summary
     (format_resource_summary rules_example blank_resource_example connections_example
        phases_example Map.empty) =
     [\<lparr>Ressource_cell = ''Alice'', Somme_Charge_Theorique = 5, Nombre_de_projets = 2\<rparr>]"
  by (simp add: blank_resource_example_def allocation_def
      create_theoretical_charge_by_resource_from_summary_def format_resource_summary_def
      sort_values_def Let_def resource_row_def project_row_def empty_row_def row_text_def
      indented_def py_strip_def is_space_def final_flush_def flush_def theoretical_sum_def
      sort_descending_def resolve_charge_def dict_get_def connections_example_def
      phases_example_def calculate_theoretical_charge_def normalize_connection_level_def
      normalize_project_phase_def mapping_get_def connection_mapping_def phase_mapping_def
      rules_example_def resource_charge_def less_eq_prod_def)

lemma aggregate_loop_append:
  "aggregate_loop (as @ bs) state = aggregate_loop bs (aggregate_loop as state)"
proof (induction as arbitrary: state)
  case Nil
  show ?case by simp
next
  case (Cons a as)
  obtain acc cur ps cs where state: "state = (acc, cur, ps, cs)"
    by (cases state) auto
  show ?case
    unfolding state by (auto simp: Cons.IH Let_def)
qed

lemma aggregate_loop_blank:
  "aggregate_loop (filter (\<lambda>row. \<not> is_blank_text (row_text row)) df) state
     = aggregate_loop df state"
proof (induction df arbitrary: state)
  case Nil
  show ?case by simp
next
  case (Cons a df)
  obtain acc cur ps cs where state: "state = (acc, cur, ps, cs)"
    by (cases state) auto
  show ?case
  proof (cases "is_blank_text (row_text a)")
    case True
    then have "aggregate_loop (a # df) (acc, cur, ps, cs) = aggregate_loop df (acc, cur, ps, cs)"
      by (auto simp: Let_def is_blank_text_def)
    with True show ?thesis unfolding state by (simp add: Cons.IH)
  next
    case False
    then show ?thesis unfolding state by (auto simp: Cons.IH Let_def)
  qed
qed

lemma aggregate_loop_before_resource:
  "list_all (\<lambda>row. \<not> is_resource_text (row_text row)) before \<Longrightarrow>
   aggregate_loop before (acc, None, ps, cs) = (acc, None, ps, cs)"
  by (induction before) (auto simp: Let_def is_resource_text_def)

lemma create_from_loop:
  "create_theoretical_charge_by_resource_from_summary df =
     sort_descending (final_flush (aggregate_loop df ([], None, [], [])))"
  by (cases "df = []")
    (simp_all add: create_theoretical_charge_by_resource_from_summary_def Let_def
      final_flush_def sort_descending_Nil)

lemma aggregate_loop_resource_row:
  "is_resource_text (row_text r) \<Longrightarrow>
   aggregate_loop (r # rest) (acc, cur, ps, cs) =
     aggregate_loop rest
       (acc @ (case cur of None \<Rightarrow> [] | Some c \<Rightarrow> [flush c ps cs]),
        Some (py_strip (row_text r)), [], [])"
  by (cases cur) (simp_all add: is_resource_text_def Let_def)

lemma aggregate_loop_rest:
  "list_all (\<lambda>row. \<not> is_resource_text (row_text row)) rest \<Longrightarrow>
   aggregate_loop (rest @ after) (acc, Some k, ps, cs) =
     aggregate_loop after
       (acc, Some k, ps @ map (\<lambda>row. py_strip (row_text row)) (project_rows_of rest),
        cs @ map Charge_Theorique (project_rows_of rest))"
proof (induction rest arbitrary: ps cs)
  case Nil
  show ?case by (simp add: project_rows_of_def)
next
  case (Cons a rest)
  from Cons.prems have a: "\<not> is_resource_text (row_text a)"
    and rest: "list_all (\<lambda>row. \<not> is_resource_text (row_text row)) rest" by simp_all
  show ?case
  proof (cases "indented (row_text a)")
    case True
    then have "aggregate_loop ((a # rest) @ after) (acc, Some k, ps, cs) =
        aggregate_loop (rest @ after)
          (acc, Some k, ps @ [py_strip (row_text a)], cs @ [Charge_Theorique a])"
      by (simp add: Let_def)
    with True show ?thesis by (simp add: Cons.IH [OF rest] project_rows_of_def)
  next
    case False
    with a have "aggregate_loop ((a # rest) @ after) (acc, Some k, ps, cs) =
        aggregate_loop (rest @ after) (acc, Some k, ps, cs)"
      by (simp add: Let_def is_resource_text_def)
    with False show ?thesis by (simp add: Cons.IH [OF rest] project_rows_of_def)
  qed
qed

lemma final_flush_group_rows:
  "list_all is_group gs \<Longrightarrow>
   final_flush (aggregate_loop (concat (map group_rows gs)) (acc, cur, ps, cs)) =
     acc @ (case cur of None \<Rightarrow> [] | Some c \<Rightarrow> [flush c ps cs]) @ map group_total gs"
proof (induction gs arbitrary: acc cur ps cs)
  case Nil
  show ?case by (cases cur) (simp_all add: final_flush_def)
next
  case (Cons g gs)
  from Cons.prems have g: "is_group g" and gs: "list_all is_group gs" by simp_all
  from g have r: "is_resource_text (row_text (fst g))"
    and rest: "list_all (\<lambda>row. \<not> is_resource_text (row_text row)) (snd g)"
    by (simp_all add: is_group_def)
  have "aggregate_loop (concat (map group_rows (g # gs))) (acc, cur, ps, cs) =
      aggregate_loop (concat (map group_rows gs))
        (acc @ (case cur of None \<Rightarrow> [] | Some c \<Rightarrow> [flush c ps cs]),
         Some (py_strip (row_text (fst g))),
         map (\<lambda>row. py_strip (row_text row)) (project_rows_of (snd g)),
         map Charge_Theorique (project_rows_of (snd g)))"
    using aggregate_loop_resource_row [OF r] aggregate_loop_rest [OF rest]
    by (simp add: group_rows_def)
  then show ?case
    by (simp add: Cons.IH [OF gs] group_total_def flush_def)
qed

text \<open>
  C10, as amended. The rows whose text is missing, empty, or white space only and does
  not start with four spaces contribute nothing: the result is the result without them.
  The rows before the first resource row, indented or not, contribute nothing either.
  And a row whose text starts with four spaces and that comes after a resource row is
  counted as a project of that resource, with its charge, also when its text is white
  space only: on a table made of groups, the result has the total of each group, whose
  count and sum are over all the rows of the group that start with four spaces.
\<close>

theorem skipped_rows_contribute_nothing:
  "create_theoretical_charge_by_resource_from_summary
     (filter (\<lambda>row. \<not> is_blank_text (row_text row)) df)
     = create_theoretical_charge_by_resource_from_summary df \<and>
   (list_all (\<lambda>row. \<not> is_resource_text (row_text row)) before \<longrightarrow>
    create_theoretical_charge_by_resource_from_summary (before @ df)
     = create_theoretical_charge_by_resource_from_summary df) \<and>
   (list_all is_group gs \<longrightarrow>
    create_theoretical_charge_by_resource_from_summary (concat (map group_rows gs))
     = sort_descending (map group_total gs))"
proof (intro conjI impI)
  show "create_theoretical_charge_by_resource_from_summary
     (filter (\<lambda>row. \<not> is_blank_text (row_text row)) df)
     = create_theoretical_charge_by_resource_from_summary df"
    by (simp only: create_from_loop aggregate_loop_blank)
next
  assume "list_all (\<lambda>row. \<not> is_resource_text (row_text row)) before"
  then have "aggregate_loop before ([], None, [], []) = ([], None, [], [])"
    by (rule aggregate_loop_before_resource)
  then show "create_theoretical_charge_by_resource_from_summary (before @ df)
     = create_theoretical_charge_by_resource_from_summary df"
    by (simp only: create_from_loop aggregate_loop_append)
next
  assume "list_all is_group gs"
  from final_flush_group_rows [OF this, of "[]" None "[]" "[]"]
  show "create_theoretical_charge_by_resource_from_summary (concat (map group_rows gs))
     = sort_descending (map group_total gs)"
    by (simp add: create_from_loop)
qed

lemmas aggregator_defs =
  create_theoretical_charge_by_resource_from_summary_def Let_def row_text_def text_row_def
  empty_row_def indented_def py_strip_def is_space_def final_flush_def flush_def
  theoretical_sum_def sort_descending_def is_resource_text_def is_blank_text_def

theorem skipped_rows_contribute_nothing_witness:
  "list_all (\<lambda>row. \<not> is_resource_text (row_text row)) orphans_example \<and>
   map (\<lambda>row. is_blank_text (row_text row)) summary_example = [False, True, True, False] \<and>
   create_theoretical_charge_by_resource_from_summary (orphans_example @ summary_example) =
     [\<lparr>Ressource_cell = ''Bob'', Somme_Charge_Theorique = 5, Nombre_de_projets = 1\<rparr>] \<and>
   create_theoretical_charge_by_resource_from_summary summary_example =
     [\<lparr>Ressource_cell = ''Bob'', Somme_Charge_Theorique = 5, Nombre_de_projets = 1\<rparr>] \<and>
   list_all is_group [(text_row (Some ''Bob'') None, [text_row (Some ''     '') (Some 3)])] \<and>
   project_rows_of [text_row (Some ''     '') (Some 3)] = [text_row (Some ''     '') (Some 3)] \<and>
   create_theoretical_charge_by_resource_from_summary
     [text_row (Some ''Bob'') None, text_row (Some ''     '') (Some 3)] =
     [\<lparr>Ressource_cell = ''Bob'', Somme_Charge_Theorique = 3, Nombre_de_projets = 1\<rparr>]"
proof -
  let ?g = "(text_row (Some ''Bob'') None, [text_row (Some ''     '') (Some 3)])"
  have a: "list_all (\<lambda>row. \<not> is_resource_text (row_text row)) orphans_example"
    by (simp add: orphans_example_def aggregator_defs)
  have b: "map (\<lambda>row. is_blank_text (row_text row)) summary_example = [False, True, True, False]"
    by (simp add: summary_example_def aggregator_defs)
  have c: "filter (\<lambda>row. \<not> is_blank_text (row_text row)) summary_example
      = [text_row (Some ''Bob'') None, text_row (Some ''    P1'') (Some 5)]"
    by (simp add: summary_example_def aggregator_defs)
  have d: "create_theoretical_charge_by_resource_from_summary
        [text_row (Some ''Bob'') None, text_row (Some ''    P1'') (Some 5)] =
     [\<lparr>Ressource_cell = ''Bob'', Somme_Charge_Theorique = 5, Nombre_de_projets = 1\<rparr>]"
    by (simp add: aggregator_defs)
  have e: "list_all is_group [?g]"
    by (simp add: is_group_def aggregator_defs)
  have f: "project_rows_of [text_row (Some ''     '') (Some 3)]
      = [text_row (Some ''     '') (Some 3)]"
    by (simp add: project_rows_of_def aggregator_defs)
  have g: "sort_descending (map group_total [?g]) =
      [\<lparr>Ressource_cell = ''Bob'', Somme_Charge_Theorique = 3, Nombre_de_projets = 1\<rparr>]"
    by (simp add: group_total_def project_rows_of_def aggregator_defs)
  from skipped_rows_contribute_nothing
    [where df = summary_example and before = orphans_example and gs = "[?g]"] a b d e f
  show ?thesis unfolding c g by (simp add: group_rows_def)
qed

text \<open>
  The claim C10 as stated fails on a row of five spaces after the row of a resource:
  its text is white space only, and it is counted as a project of \<open>Bob\<close>, with its
  charge. Without that row \<open>Bob\<close> has no project.
\<close>

theorem whitespace_row_counted_counterexample:
  "py_strip ''     '' = [] \<and>
   create_theoretical_charge_by_resource_from_summary spaces_example =
     [\<lparr>Ressource_cell = ''Bob'', Somme_Charge_Theorique = 3, Nombre_de_projets = 1\<rparr>] \<and>
   create_theoretical_charge_by_resource_from_summary [text_row (Some ''Bob'') None] =
     [\<lparr>Ressource_cell = ''Bob'', Somme_Charge_Theorique = 0, Nombre_de_projets = 0\<rparr>]"
  by (simp add: spaces_example_def aggregator_defs)

theorem format_resource_summary_rows_witness:
  "sorted_list_of_set (Ressource ` set pivot_example) = [''Alice'', ''Bob''] \<and>
   map Projet (sort_values pivot_example) = [''P3'', ''P1'', ''P2''] \<and>
   map Resource_PROJET
     (format_resource_summary rules_example pivot_example connections_example
        phases_example Map.empty) =
     [Some ''Alice'', Some ''    P3'', Some ''Bob'', Some ''    P1'', Some ''    P2''] \<and>
   length (filter (\<lambda>r. Somme_de_Charge_JH r = None)
     (format_resource_summary rules_example pivot_example connections_example
        phases_example Map.empty)) = 3 \<and>
   length (filter (\<lambda>r. Somme_de_Charge_JH r \<noteq> None)
     (format_resource_summary rules_example pivot_example connections_example
        phases_example Map.empty)) = 2"
proof -
  have "Ressource ` set pivot_example = set [''Bob'', ''Alice'', ''Bob'']"
    by (simp add: pivot_example_def allocation_def)
  then have ks: "sorted_list_of_set (Ressource ` set pivot_example) = [''Alice'', ''Bob'']"
    by (simp only: sorted_list_of_set_sort_remdups) simp
  have s: "sort_values pivot_example
      = [allocation ''Alice'' ''P3'' 1, allocation ''Bob'' ''P1'' 4, allocation ''Bob'' ''P2'' 2]"
    by (simp add: pivot_example_def allocation_def sort_values_def less_eq_prod_def)
  have card: "card (Ressource ` set pivot_example) = 2"
    using arg_cong [OF ks, of length] by simp
  have len: "length pivot_example = 3"
    by (simp add: pivot_example_def)
  from format_resource_summary_rows [of pivot_example rules_example connections_example
      phases_example Map.empty]
  show ?thesis
    unfolding Let_def ks s card len
    by (simp add: resource_row_simps project_row_simps allocation_def)
qed

section \<open>Properties of the functions on the store\<close>

lemma untouched_refl: "untouched n s s"
  by (simp add: untouched_def)

lemma untouched_trans: "untouched n s s' \<Longrightarrow> untouched n s' s'' \<Longrightarrow> untouched n s s''"
  by (simp add: untouched_def)

lemma untouched_allocate: "n \<le> length s \<Longrightarrow> untouched n s (fst (allocate s x))"
  by (simp add: untouched_def allocate_def)

lemma allocate_eq: "allocate s x = (s @ [x], length s)"
  by (simp add: allocate_def)

lemma untouched_assign: "n \<le> a \<Longrightarrow> untouched n s (assign s a f)"
  by (simp add: untouched_def assign_def)

lemma untouched_append_rows: "n \<le> a \<Longrightarrow> untouched n s (append_rows s a new_rows)"
  by (simp add: untouched_def append_rows_def)

lemma length_assign: "length (assign s a f) = length s"
  by (simp add: assign_def)

lemma frame_at_assign: "a < length s \<Longrightarrow> frame_at (assign s a f) a = f (frame_at s a)"
  by (simp add: assign_def frame_at_def)

lemma frame_at_new: "frame_at (s @ [Frame d]) (length s) = d"
  by (simp add: frame_at_def)

lemma frame_at_copy: "a < length s \<Longrightarrow> frame_at (s @ [s ! a]) (length s) = frame_at s a"
  by (simp add: frame_at_def)

lemma frame_at_old: "a < length s \<Longrightarrow> frame_at (s @ xs) a = frame_at s a"
  by (simp add: frame_at_def nth_append)

lemma untouched_all: "untouched (length s) s s' \<Longrightarrow> take (length s) s' = s"
  by (simp add: untouched_def)

lemma effective_dates_store_correct:
  assumes "n \<le> a" and "a < length s"
  obtains s' b where "effective_dates_store s a = (s', b)" and "untouched n s s'"
    and "n \<le> b" and "b < length s'" and "frame_at s' b = effective_dates (frame_at s a)"
proof -
  let ?s1 = "assign s a (\<lambda>d. set_column d ''Date effective'' (\<lambda>r. r Date_d_affectation))"
  let ?s2 = "if Date_de_creation \<in> set (columns (frame_at ?s1 a))
                then assign ?s1 a
                       (\<lambda>d. set_column d ''Date effective''
                          (\<lambda>r. if isna (r Date_d_affectation) \<and> \<not> isna (r Date_de_creation)
                                then r Date_de_creation else r ''Date effective''))
                else ?s1"
  let ?d = "filter_rows (\<lambda>r. \<not> isna (r ''Date effective'')) (frame_at ?s2 a)"
  have eq: "effective_dates_store s a = (?s2 @ [Frame ?d], length ?s2)"
    by (simp only: effective_dates_store_def Let_def allocate_eq)
  have len: "length ?s2 = length s" by (simp add: length_assign)
  have u: "untouched n s ?s2"
    using assms(1) by (auto intro: untouched_assign untouched_trans)
  have "untouched n ?s2 (?s2 @ [Frame ?d])"
    using assms len by (simp add: untouched_def)
  with u have u': "untouched n s (?s2 @ [Frame ?d])" by (rule untouched_trans)
  have f1: "frame_at ?s1 a = set_column (frame_at s a) ''Date effective'' (\<lambda>r. r Date_d_affectation)"
    using assms(2) by (simp add: frame_at_assign)
  have "?d = effective_dates (frame_at s a)"
    using assms(2) by (simp add: effective_dates_def Let_def f1 frame_at_assign length_assign)
  then have "frame_at (?s2 @ [Frame ?d]) (length ?s2) = effective_dates (frame_at s a)"
    by (simp only: frame_at_new)
  then show thesis
    using that [OF eq u'] assms len by simp
qed

lemma parse_dates_store_correct:
  assumes "n \<le> a" and "a < length s"
  obtains s' b where "parse_dates_store parse s a = (s', b)" and "untouched n s s'"
    and "n \<le> b" and "b < length s'" and "frame_at s' b = parse_dates parse (frame_at s a)"
proof -
  let ?column = "map (\<lambda>r. r ''Date effective'') (rows (frame_at s a))"
  let ?s1 = "assign s a (\<lambda>d. set_column d ''Date effective''
                    (\<lambda>r. to_datetime parse ?column (r ''Date effective'')))"
  let ?d = "filter_rows (\<lambda>r. \<not> isna (r ''Date effective'')) (frame_at ?s1 a)"
  have eq: "parse_dates_store parse s a = (?s1 @ [Frame ?d], length ?s1)"
    by (simp only: parse_dates_store_def Let_def allocate_eq)
  have len: "length ?s1 = length s" by (simp add: length_assign)
  have u: "untouched n s ?s1"
    using assms(1) by (rule untouched_assign)
  have "untouched n ?s1 (?s1 @ [Frame ?d])"
    using assms len by (simp add: untouched_def)
  with u have u': "untouched n s (?s1 @ [Frame ?d])" by (rule untouched_trans)
  have "?d = parse_dates parse (frame_at s a)"
    using assms(2) by (simp add: parse_dates_def Let_def frame_at_assign)
  then have "frame_at (?s1 @ [Frame ?d]) (length ?s1) = parse_dates parse (frame_at s a)"
    by (simp only: frame_at_new)
  then show thesis
    using that [OF eq u'] assms len by simp
qed

lemma finish_summary_store_correct:
  assumes "n \<le> a" and "a < length s"
  obtains s' b where "finish_summary_store s a = (s', b)" and "untouched n s s'"
    and "n \<le> b" and "b < length s'" and "frame_at s' b = finish_summary (frame_at s a)"
proof -
  let ?s1 = "assign s a add_counts"
  let ?s2 = "assign ?s1 a clear_2024_2025"
  let ?s3 = "assign ?s2 a clear_repeated_years"
  let ?d = "reorder_columns (frame_at ?s3 a)"
  have eq: "finish_summary_store s a = (?s3 @ [Frame ?d], length ?s3)"
    by (simp only: finish_summary_store_def Let_def allocate_eq)
  have len: "length ?s3 = length s" by (simp add: length_assign)
  have u: "untouched n s ?s3"
    using assms(1) by (blast intro: untouched_assign untouched_trans)
  have "untouched n ?s3 (?s3 @ [Frame ?d])"
    using assms len by (simp add: untouched_def)
  with u have u': "untouched n s (?s3 @ [Frame ?d])" by (rule untouched_trans)
  have "?d = finish_summary (frame_at s a)"
    using assms(2) by (simp add: finish_summary_def frame_at_assign length_assign)
  then have "frame_at (?s3 @ [Frame ?d]) (length ?s3) = finish_summary (frame_at s a)"
    by (simp only: frame_at_new)
  then show thesis
    using that [OF eq u'] assms len by simp
qed


lemma sorted_projects_store_correct:
  assumes "df < length s"
  obtains s' result where "sorted_projects_store parse s df ph = (s', result)"
    and "untouched (length s) s s'"
    and "agrees_option s s' result (sorted_projects parse (frame_at s df) ph)"
proof (cases "select_columns (frame_at s df) (columns_needed (frame_at s df))")
  case (Inl e)
  then have "sorted_projects_store parse s df ph = (s, Inl e)"
    and "sorted_projects parse (frame_at s df) ph = Inl e"
    by (simp_all add: sorted_projects_store_def sorted_projects_def Let_def)
  then show thesis
    using that [of s "Inl e"] by (simp add: untouched_refl agrees_option_def)
next
  case (Inr selected)
  let ?n = "length s"
  let ?keep = "\<lambda>r. isin (r ''Phase du projet'') (allowed_phases_of ph)"
  define s3 where "s3 = s @ [Frame selected, Frame selected, Frame (filter_rows ?keep selected)]"
  have len3: "length s3 = ?n + 3" by (simp add: s3_def)
  have u3: "untouched ?n s s3" by (simp add: untouched_def s3_def)
  have f3: "frame_at s3 (?n + 2) = filter_rows ?keep selected"
    by (simp add: s3_def frame_at_def nth_append)
  have a3: "?n \<le> ?n + 2" "?n + 2 < length s3" using len3 by simp_all
  from effective_dates_store_correct [OF a3] obtain s4 b4 where
    e4: "effective_dates_store s3 (?n + 2) = (s4, b4)" and u4: "untouched ?n s3 s4"
    and b4: "?n \<le> b4" "b4 < length s4"
    and f4: "frame_at s4 b4 = effective_dates (frame_at s3 (?n + 2))"
    by blast
  have start: "sorted_projects_store parse s df ph =
      (if rows (frame_at s4 b4) = [] then (s4, Inr None)
       else case parse_dates_store parse s4 b4 of (s5, df_copy) \<Rightarrow>
         if rows (frame_at s5 df_copy) = [] then (s5, Inr None)
         else let s6 = assign s5 df_copy
                               (\<lambda>d. set_column d Annee (\<lambda>r. dt_year (r ''Date effective'')))
              in case select_columns (frame_at s6 df_copy) [Annee, ''Nom'', Derniere_Note] of
                   Inl e \<Rightarrow> (s6, Inl e)
                 | Inr selected \<Rightarrow>
                     (case allocate s6 (Frame selected) of (s7, selection) \<Rightarrow>
                      case allocate s7 (s7 ! selection) of (s8, result_df) \<Rightarrow>
                      let s9 = assign s8 result_df rename_result
                      in case allocate s9 (Frame (sort_by_year_name (frame_at s9 result_df))) of
                           (s10, result_df) \<Rightarrow> (s10, Inr (Some result_df))))"
  proof -
    have "s @ [Frame selected] @ [Frame selected]
        @ [Frame (filter_rows ?keep (frame_at ((s @ [Frame selected]) @ [Frame selected])
              (Suc (length s))))] = s3"
      by (simp add: s3_def frame_at_def nth_append)
    then show ?thesis
      unfolding sorted_projects_store_def Let_def Inr sum.case allocate_eq prod.case
      using e4 by (simp add: nth_append)
  qed
  have pure: "sorted_projects parse (frame_at s df) ph =
      (let df2 = effective_dates (filter_rows ?keep selected)
       in if rows df2 = [] then Inr None
          else let df3 = parse_dates parse df2
               in if rows df3 = [] then Inr None
                  else let df4 = set_column df3 Annee (\<lambda>r. dt_year (r ''Date effective''))
                       in case select_columns df4 [Annee, ''Nom'', Derniere_Note] of
                            Inl e \<Rightarrow> Inl e
                          | Inr result_df \<Rightarrow>
                              Inr (Some (sort_by_year_name (rename_result result_df))))"
    unfolding sorted_projects_def Let_def Inr sum.case ..
  let ?df2 = "effective_dates (filter_rows ?keep selected)"
  have f4': "frame_at s4 b4 = ?df2" using f4 f3 by simp
  have u04: "untouched ?n s s4" using u3 u4 by (rule untouched_trans)
  show thesis
  proof (cases "rows ?df2 = []")
    case True
    then have "sorted_projects_store parse s df ph = (s4, Inr None)"
      and "sorted_projects parse (frame_at s df) ph = Inr None"
      using start pure f4' by (simp_all add: Let_def)
    then show thesis
      using that [of s4 "Inr None"] u04 by (simp add: agrees_option_def)
  next
    case ne2: False
    from parse_dates_store_correct [OF b4] obtain s5 b5 where
      e5: "parse_dates_store parse s4 b4 = (s5, b5)" and u5: "untouched ?n s4 s5"
      and b5: "?n \<le> b5" "b5 < length s5"
      and f5: "frame_at s5 b5 = parse_dates parse (frame_at s4 b4)"
      by blast
    let ?df3 = "parse_dates parse ?df2"
    have f5': "frame_at s5 b5 = ?df3" using f5 f4' by simp
    have u05: "untouched ?n s s5" using u04 u5 by (rule untouched_trans)
    show thesis
    proof (cases "rows ?df3 = []")
      case True
      then have "sorted_projects_store parse s df ph = (s5, Inr None)"
        and "sorted_projects parse (frame_at s df) ph = Inr None"
        using start pure f4' ne2 e5 f5' by (simp_all add: Let_def)
      then show thesis
        using that [of s5 "Inr None"] u05 by (simp add: agrees_option_def)
    next
      case ne3: False
      let ?df4 = "set_column ?df3 Annee (\<lambda>r. dt_year (r ''Date effective''))"
      define s6 where "s6 = assign s5 b5
          (\<lambda>d. set_column d Annee (\<lambda>r. dt_year (r ''Date effective'')))"
      have f6: "frame_at s6 b5 = ?df4"
        using b5 f5' by (simp add: s6_def frame_at_assign)
      have len6: "length s6 = length s5" by (simp add: s6_def length_assign)
      have u6: "untouched ?n s5 s6" unfolding s6_def using b5(1) by (rule untouched_assign)
      have u06: "untouched ?n s s6" using u05 u6 by (rule untouched_trans)
      have n6: "?n \<le> length s6" using u06 by (simp add: untouched_def)
      have store: "sorted_projects_store parse s df ph =
          (case select_columns ?df4 [Annee, ''Nom'', Derniere_Note] of
             Inl e \<Rightarrow> (s6, Inl e)
           | Inr selected \<Rightarrow>
               (case allocate s6 (Frame selected) of (s7, selection) \<Rightarrow>
                case allocate s7 (s7 ! selection) of (s8, result_df) \<Rightarrow>
                let s9 = assign s8 result_df rename_result
                in case allocate s9 (Frame (sort_by_year_name (frame_at s9 result_df))) of
                     (s10, result_df) \<Rightarrow> (s10, Inr (Some result_df))))"
        unfolding s6_def using start f4' ne2 e5 f5' ne3 f6 [unfolded s6_def]
        by (simp add: Let_def)
      show thesis
      proof (cases "select_columns ?df4 [Annee, ''Nom'', Derniere_Note]")
        case (Inl e)
        then have "sorted_projects_store parse s df ph = (s6, Inl e)"
          and "sorted_projects parse (frame_at s df) ph = Inl e"
          using store pure ne2 ne3 by (simp_all add: Let_def)
        then show thesis
          using that [of s6 "Inl e"] u06 by (simp add: agrees_option_def)
      next
        case (Inr sel)
        let ?out = "sort_by_year_name (rename_result sel)"
        let ?s8 = "s6 @ [Frame sel, Frame sel]"
        let ?s9 = "assign ?s8 (Suc (length s6)) rename_result"
        let ?s10 = "?s9 @ [Frame ?out]"
        have f9: "frame_at ?s9 (Suc (length s6)) = rename_result sel"
          by (simp add: frame_at_assign) (simp add: frame_at_def nth_append)
        have st: "sorted_projects_store parse s df ph = (?s10, Inr (Some (length s6 + 2)))"
          unfolding store Inr sum.case allocate_eq prod.case Let_def
          by (simp add: nth_append f9 length_assign)
        have pu: "sorted_projects parse (frame_at s df) ph = Inr (Some ?out)"
          using pure ne2 ne3 Inr by (simp add: Let_def)
        have "untouched ?n s6 ?s10"
          using n6 by (simp add: untouched_def assign_def)
        with u06 have u: "untouched ?n s ?s10" by (rule untouched_trans)
        have fo: "frame_at ?s10 (length s6 + 2) = ?out"
          using frame_at_new [of ?s9 ?out] by (simp add: length_assign)
        have "agrees_option s ?s10 (Inr (Some (length s6 + 2))) (Inr (Some ?out))"
          using n6 fo by (simp add: agrees_option_def length_assign)
        then show thesis
          using that [OF st u] pu by simp
      qed
    qed
  qed
qed


lemma calculate_charge_jh_store_correct:
  assumes "df < length s"
  obtains s' result where "calculate_charge_jh_store s df = (s', result)"
    and "untouched (length s) s s'"
    and "agrees s s' result (calculate_charge_jh (frame_at s df))"
proof -
  let ?s1 = "s @ [s ! df]"
  have f1: "frame_at ?s1 (length s) = frame_at s df"
    using assms by (rule frame_at_copy)
  show thesis
  proof (cases "charge_jh_values (frame_at s df)")
    case (Inl e)
    then have "calculate_charge_jh_store s df = (?s1, Inl e)"
      and "calculate_charge_jh (frame_at s df) = Inl e"
      by (simp_all add: calculate_charge_jh_store_def calculate_charge_jh_def allocate_eq f1)
    then show thesis
      using that [of ?s1 "Inl e"] by (simp add: untouched_def agrees_def)
  next
    case (Inr vals)
    let ?s2 = "assign ?s1 (length s) (\<lambda>d. set_column d ''Charge JH'' vals)"
    have st: "calculate_charge_jh_store s df = (?s2, Inr (length s))"
      and pu: "calculate_charge_jh (frame_at s df)
          = Inr (set_column (frame_at s df) ''Charge JH'' vals)"
      using Inr by (simp_all add: calculate_charge_jh_store_def calculate_charge_jh_def allocate_eq f1)
    have u: "untouched (length s) s ?s2"
      by (simp add: untouched_def assign_def)
    have "frame_at ?s2 (length s) = set_column (frame_at s df) ''Charge JH'' vals"
      using f1 by (simp add: frame_at_assign)
    then have "agrees s ?s2 (Inr (length s)) (calculate_charge_jh (frame_at s df))"
      by (simp add: agrees_def pu length_assign)
    with that [OF st u] show thesis by simp
  qed
qed

lemma create_projects_by_month_summary_store_correct:
  assumes "df < length s"
  obtains s' result where
    "create_projects_by_month_summary_store parse s df ph = (s', result)"
    and "untouched (length s) s s'"
    and "agrees s s' result (create_projects_by_month_summary parse (frame_at s df) ph)"
proof (cases "Date_d_affectation \<in> set (columns (frame_at s df))")
  case False
  let ?s1 = "s @ [Frame empty_summary]"
  from False have "create_projects_by_month_summary_store parse s df ph = (?s1, Inr (length s))"
    and "create_projects_by_month_summary parse (frame_at s df) ph = Inr empty_summary"
    by (simp_all add: create_projects_by_month_summary_store_def
        create_projects_by_month_summary_def allocate_eq)
  then show thesis
    using that [of ?s1 "Inr (length s)"] frame_at_new [of s empty_summary]
    by (simp add: untouched_def agrees_def)
next
  case True
  from sorted_projects_store_correct [OF assms, of parse ph] obtain s1 r1 where
    e1: "sorted_projects_store parse s df ph = (s1, r1)" and u1: "untouched (length s) s s1"
    and a1: "agrees_option s s1 r1 (sorted_projects parse (frame_at s df) ph)"
    by blast
  have n1: "length s \<le> length s1" using u1 by (simp add: untouched_def)
  show thesis
  proof (cases r1)
    case (Inl e)
    with a1 have "sorted_projects parse (frame_at s df) ph = Inl e"
      by (simp add: agrees_option_def)
    with True Inl e1 have "create_projects_by_month_summary_store parse s df ph = (s1, Inl e)"
      and "create_projects_by_month_summary parse (frame_at s df) ph = Inl e"
      by (simp_all add: create_projects_by_month_summary_store_def
          create_projects_by_month_summary_def)
    then show thesis
      using that [of s1 "Inl e"] u1 by (simp add: agrees_def)
  next
    case (Inr found)
    show thesis
    proof (cases found)
      case None
      let ?s2 = "s1 @ [Frame empty_summary]"
      from None Inr a1 have "sorted_projects parse (frame_at s df) ph = Inr None"
        by (simp add: agrees_option_def)
      with True None Inr e1
      have st: "create_projects_by_month_summary_store parse s df ph = (?s2, Inr (length s1))"
        and pu: "create_projects_by_month_summary parse (frame_at s df) ph = Inr empty_summary"
        by (simp_all add: create_projects_by_month_summary_store_def
            create_projects_by_month_summary_def allocate_eq)
      have "untouched (length s) s1 ?s2" using n1 by (simp add: untouched_def)
      with u1 have u: "untouched (length s) s ?s2" by (rule untouched_trans)
      have "agrees s ?s2 (Inr (length s1)) (Inr empty_summary)"
        using n1 frame_at_new [of s1 empty_summary] by (simp add: agrees_def)
      with that [OF st u] pu show thesis by simp
    next
      case (Some b)
      with Inr a1 have b: "length s \<le> b" "b < length s1"
        and pu1: "sorted_projects parse (frame_at s df) ph = Inr (Some (frame_at s1 b))"
        by (simp_all add: agrees_option_def)
      from finish_summary_store_correct [OF b] obtain s2 c where
        e2: "finish_summary_store s1 b = (s2, c)" and u2: "untouched (length s) s1 s2"
        and c: "length s \<le> c" "c < length s2"
        and f2: "frame_at s2 c = finish_summary (frame_at s1 b)"
        by blast
      from True Some Inr e1 e2 pu1
      have st: "create_projects_by_month_summary_store parse s df ph = (s2, Inr c)"
        and pu: "create_projects_by_month_summary parse (frame_at s df) ph
            = Inr (finish_summary (frame_at s1 b))"
        by (simp_all add: create_projects_by_month_summary_store_def
            create_projects_by_month_summary_def)
      have u: "untouched (length s) s s2" using u1 u2 by (rule untouched_trans)
      have "agrees s s2 (Inr c) (Inr (finish_summary (frame_at s1 b)))"
        using c f2 by (simp add: agrees_def)
      with that [OF st u] pu show thesis by simp
    qed
  qed
qed

lemma second_pass_store_correct:
  assumes "s ! a = Summary xs" and "a < length s" and "p \<noteq> a"
  shows "second_pass_store R cd pd s a p cur rws =
     s[a := Summary (xs @ second_pass R cd pd (pivot_at s p) cur rws)]"
  using assms
proof (induction rws arbitrary: s xs cur)
  case Nil
  then show ?case by (metis append_Nil2 list_update_id second_pass.simps(1) second_pass_store.simps(1))
next
  case (Cons row rws)
  have step: "second_pass_store R cd pd (append_rows s a new) a p cur' rws =
      s[a := Summary (xs @ new @ second_pass R cd pd (pivot_at s p) cur' rws)]" for new cur'
  proof -
    let ?s = "append_rows s a new"
    have 1: "?s ! a = Summary (xs @ new)"
      using Cons.prems by (simp add: append_rows_def summary_at_def)
    have 2: "a < length ?s" using Cons.prems by (simp add: append_rows_def)
    have 3: "pivot_at ?s p = pivot_at s p"
      using Cons.prems by (simp add: append_rows_def pivot_at_def)
    show ?thesis
      using Cons.IH [OF 1 2 Cons.prems(3), of cur'] 3 by (simp add: append_rows_def)
  qed
  show ?case
    by (simp add: Let_def step)
qed

lemma format_resource_summary_store_correct:
  assumes "pivot_df < length s"
  obtains s' out where "format_resource_summary_store R s pivot_df cd pd md = (s', out)"
    and "untouched (length s) s s'" and "length s \<le> out" and "out < length s'"
    and "summary_at s' out = format_resource_summary R (pivot_at s pivot_df) cd pd md"
proof -
  let ?sorted = "sort_values (pivot_at s pivot_df)"
  let ?s2 = "s @ [Summary [], Pivot ?sorted]"
  let ?rows = "second_pass R cd pd ?sorted None ?sorted"
  have p1: "pivot_at (s @ [Summary []]) pivot_df = pivot_at s pivot_df"
    using assms by (simp add: pivot_at_def nth_append)
  have p2: "pivot_at ?s2 (Suc (length s)) = ?sorted"
    by (simp add: pivot_at_def nth_append)
  have "second_pass_store R cd pd ?s2 (length s) (Suc (length s)) None ?sorted =
      ?s2[length s := Summary ([] @ second_pass R cd pd (pivot_at ?s2 (Suc (length s))) None ?sorted)]"
    by (rule second_pass_store_correct) (simp_all add: nth_append)
  then have sp: "second_pass_store R cd pd ?s2 (length s) (Suc (length s)) None ?sorted =
      ?s2[length s := Summary ?rows]"
    unfolding p2 by simp
  have st: "format_resource_summary_store R s pivot_df cd pd md
      = (?s2[length s := Summary ?rows], length s)"
    unfolding format_resource_summary_store_def allocate_eq prod.case Let_def p1
    using sp p2 by simp
  have u: "untouched (length s) s (?s2[length s := Summary ?rows])"
    by (simp add: untouched_def)
  have "summary_at (?s2[length s := Summary ?rows]) (length s) = ?rows"
    by (simp add: summary_at_def)
  then have f: "summary_at (?s2[length s := Summary ?rows]) (length s)
      = format_resource_summary R (pivot_at s pivot_df) cd pd md"
    by (simp add: format_resource_summary_def Let_def)
  show thesis
    using that [OF st u _ _ f] by simp
qed

text \<open>
  C8. Each of \<^verbatim>\<open>calculate_charge_jh\<close>, \<^verbatim>\<open>create_projects_by_month_summary\<close> and
  \<^verbatim>\<open>format_resource_summary\<close>, run on a store and the reference of its input table, leaves
  every object of that store as it was (the input table with them), whether it returns or
  raises; the table it returns is a new object of the store, and holds what the function
  on tables of the sections above returns.
\<close>

theorem inputs_unchanged:
  assumes "df < length s" and "pivot_df < length s"
  shows "(case calculate_charge_jh_store s df of
            (s', result) \<Rightarrow>
              take (length s) s' = s \<and>
              agrees s s' result (calculate_charge_jh (frame_at s df))) \<and>
         (case create_projects_by_month_summary_store parse s df phases_checked of
            (s', result) \<Rightarrow>
              take (length s) s' = s \<and>
              agrees s s' result
                (create_projects_by_month_summary parse (frame_at s df) phases_checked)) \<and>
         (case format_resource_summary_store rules s pivot_df connection_dict phase_dict
                 montant_dict of
            (s', out) \<Rightarrow>
              take (length s) s' = s \<and> length s \<le> out \<and> out < length s' \<and>
              summary_at s' out =
                format_resource_summary rules (pivot_at s pivot_df) connection_dict phase_dict
                  montant_dict)"
proof (intro conjI)
  from calculate_charge_jh_store_correct [OF assms(1)] obtain s' result where
    "calculate_charge_jh_store s df = (s', result)" "untouched (length s) s s'"
    "agrees s s' result (calculate_charge_jh (frame_at s df))"
    by blast
  then show "case calculate_charge_jh_store s df of
            (s', result) \<Rightarrow>
              take (length s) s' = s \<and>
              agrees s s' result (calculate_charge_jh (frame_at s df))"
    by (simp add: untouched_all)
next
  from create_projects_by_month_summary_store_correct [OF assms(1), of parse phases_checked]
  obtain s' result where
    "create_projects_by_month_summary_store parse s df phases_checked = (s', result)"
    "untouched (length s) s s'"
    "agrees s s' result (create_projects_by_month_summary parse (frame_at s df) phases_checked)"
    by blast
  then show "case create_projects_by_month_summary_store parse s df phases_checked of
            (s', result) \<Rightarrow>
              take (length s) s' = s \<and>
              agrees s s' result
                (create_projects_by_month_summary parse (frame_at s df) phases_checked)"
    by (simp add: untouched_all)
next
  from format_resource_summary_store_correct [OF assms(2), of rules connection_dict phase_dict
      montant_dict]
  obtain s' out where
    "format_resource_summary_store rules s pivot_df connection_dict phase_dict montant_dict
      = (s', out)"
    "untouched (length s) s s'" "length s \<le> out" "out < length s'"
    "summary_at s' out = format_resource_summary rules (pivot_at s pivot_df) connection_dict
       phase_dict montant_dict"
    by blast
  then show "case format_resource_summary_store rules s pivot_df connection_dict phase_dict
                 montant_dict of
            (s', out) \<Rightarrow>
              take (length s) s' = s \<and> length s \<le> out \<and> out < length s' \<and>
              summary_at s' out =
                format_resource_summary rules (pivot_at s pivot_df) connection_dict phase_dict
                  montant_dict"
    by (simp add: untouched_all)
qed

theorem inputs_unchanged_witness:
  "0 < length store_example \<and> 1 < length store_example \<and> 2 < length store_example \<and>
   snd (calculate_charge_jh_store store_example 0) = Inr 3 \<and>
   take 3 (fst (calculate_charge_jh_store store_example 0)) = store_example \<and>
   take 3 (fst (create_projects_by_month_summary_store timestamps_only store_example 2 None))
     = store_example \<and>
   take 3 (fst (format_resource_summary_store rules_example store_example 1
      connections_example phases_example Map.empty)) = store_example"
proof -
  have len: "length store_example = 3"
    by (simp add: store_example_def)
  have new: "snd (calculate_charge_jh_store store_example 0) = Inr 3"
    by (simp add: calculate_charge_jh_store_def allocate_def store_example_def frame_at_def
        charge_jh_values_def hours_example_def)
  from new inputs_unchanged [of 0 store_example 1 timestamps_only None rules_example
      connections_example phases_example Map.empty]
    inputs_unchanged [of 2 store_example 1 timestamps_only None rules_example
      connections_example phases_example Map.empty]
  show ?thesis
    unfolding len by (simp add: case_prod_beta)
qed

end
